theory Spec2Isabelle
  imports Complex_Main "HOL-Library.Char_ord" "HOL-Library.List_Lexorder"
begin

section \<open>Evaluation utilities (tasks/eval\_utils.py)\<close>

text \<open>
  A shallow embedding of \<^verbatim>\<open>tasks/eval_utils.py\<close>. Python floats, the logits and
  the loss mask are modelled as exact reals. The vector that is reduced across the
  data-parallel group is a single-precision tensor in the source; its entries are rounded
  to single precision when the vector is built and after every addition of the reduction.
  Exceptions are values of \<open>py_error\<close>; a function that may raise returns
  \<open>py_error + 'a\<close>.
\<close>

subsection \<open>Errors\<close>

datatype py_error =
    AssertionError
  | KeyError
  | IndexError
  | ZeroDivisionError
  | RuntimeError
  | CollectiveMismatch
  | Raised string

subsection \<open>Two-dimensional tensors\<close>

text \<open>
  A tensor with two dimensions: \<open>rows\<close> lists dimension 0, every row lists
  dimension 1. \<open>size1\<close> is kept apart from the rows because a tensor with no row still has a
  size along dimension 1.
\<close>

record 'a tensor =
  size1 :: nat
  rows :: "'a list list"

definition size0 :: "'a tensor \<Rightarrow> nat" where
  "size0 t = length (rows t)"

definition wf_tensor :: "'a tensor \<Rightarrow> bool" where
  "wf_tensor t = list_all (\<lambda>r. length r = size1 t) (rows t)"

text \<open>\<^verbatim>\<open>arg[:, a:b]\<close> for \<open>0 \<le> a \<le> b\<close>: Python slices clamp to the size.\<close>

definition slice1 :: "nat \<Rightarrow> nat \<Rightarrow> 'a tensor \<Rightarrow> 'a tensor" where
  "slice1 a b t =
     \<lparr>size1 = min b (size1 t) - min a (size1 t),
      rows = map (\<lambda>r. take (b - a) (drop a r)) (rows t)\<rparr>"

text \<open>
  \<^verbatim>\<open>torch.cat(ts, dim=1)\<close>: an empty list of tensors is refused, and so are tensors
  whose sizes along dimension 0 differ.
\<close>

fun cat1 :: "'a tensor list \<Rightarrow> py_error + 'a tensor" where
  "cat1 [] = Inl RuntimeError"
| "cat1 [t] = Inr t"
| "cat1 (t # ts) =
     (case cat1 ts of
        Inl e \<Rightarrow> Inl e
      | Inr u \<Rightarrow>
          if size0 t = size0 u
          then Inr \<lparr>size1 = size1 t + size1 u, rows = map2 (@) (rows t) (rows u)\<rparr>
          else Inl RuntimeError)"

subsection \<open>The model object\<close>

text \<open>
  The model is callable and carries the mode flag that \<^verbatim>\<open>model.eval()\<close> and
  \<^verbatim>\<open>model.train()\<close> set. \<open>call\<close> gives the logits of a forward pass from the mode
  flag and the input tensors; the auxiliary outputs (\<^verbatim>\<open>*mems\<close>) are dropped by the
  source and are not modelled.
\<close>

record 'a model =
  training :: bool
  call :: "bool \<Rightarrow> 'a tensor list \<Rightarrow> real tensor"

definition model_eval :: "'a model \<Rightarrow> 'a model" where
  "model_eval m = m\<lparr>training := False\<rparr>"

definition model_train :: "'a model \<Rightarrow> 'a model" where
  "model_train m = m\<lparr>training := True\<rparr>"

definition run_model :: "'a model \<Rightarrow> 'a tensor list \<Rightarrow> real tensor" where
  "run_model m inputs = call m (training m) inputs"

subsection \<open>Chunked forward pass\<close>

definition segment_length :: nat where
  "segment_length = 10"

text \<open>\<^verbatim>\<open>(inputs[0].size(1) - 1) // segment_length + 1\<close>, with Python's floor division.\<close>

definition num_chunks :: "nat \<Rightarrow> nat" where
  "num_chunks n = nat ((int n - 1) div int segment_length + 1)"

definition input_batch :: "nat \<Rightarrow> 'a tensor list \<Rightarrow> 'a tensor list" where
  "input_batch i inputs =
     map (slice1 (i * segment_length) ((i + 1) * segment_length)) inputs"

definition logit_list :: "'a model \<Rightarrow> nat \<Rightarrow> 'a tensor list \<Rightarrow> real tensor list" where
  "logit_list m n inputs = map (\<lambda>i. run_model m (input_batch i inputs)) [0..<num_chunks n]"

definition chunked_forward :: "'a model \<Rightarrow> nat \<Rightarrow> 'a tensor list \<Rightarrow> py_error + real tensor" where
  "chunked_forward m n inputs = cat1 (logit_list m n inputs)"

definition full_forward :: "'a model \<Rightarrow> 'a tensor list \<Rightarrow> py_error + real tensor" where
  "full_forward m inputs = Inr (run_model m inputs)"

definition forward :: "'a model \<Rightarrow> 'a tensor list \<Rightarrow> py_error + real tensor" where
  "forward m inputs =
     (case inputs of
        [] \<Rightarrow> Inl IndexError
      | t0 # _ \<Rightarrow>
          if size1 t0 > segment_length then chunked_forward m (size1 t0) inputs
          else full_forward m inputs)"

subsection \<open>Sequencing of steps that may raise\<close>

definition bind_err :: "py_error + 'a \<Rightarrow> ('a \<Rightarrow> py_error + 'b) \<Rightarrow> py_error + 'b" where
  "bind_err x f = (case x of Inl e \<Rightarrow> Inl e | Inr v \<Rightarrow> f v)"

subsection \<open>Loss mask, argmax, softmax\<close>

text \<open>
  Broadcasting of one dimension: equal sizes, or one of them is 1 and the other wins.
\<close>

definition bdim :: "nat \<Rightarrow> nat \<Rightarrow> nat option" where
  "bdim a b = (if a = b then Some a else if a = 1 then Some b else if b = 1 then Some a else None)"

definition expand :: "nat \<Rightarrow> nat \<Rightarrow> 'a tensor \<Rightarrow> 'a tensor" where
  "expand n0 n1 t =
     \<lparr>size1 = n1,
      rows = map (\<lambda>r. if size1 t = n1 then r else concat (replicate n1 r))
               (if size0 t = n0 then rows t else concat (replicate n0 (rows t)))\<rparr>"

definition mask_logit :: "real \<Rightarrow> real \<Rightarrow> real" where
  "mask_logit l m = l * m - 10000 * (1 - m)"

text \<open>\<^verbatim>\<open>logits * loss_mask - 10000.0 * (1.0 - loss_mask)\<close>, elementwise after broadcasting.\<close>

definition apply_loss_mask :: "real tensor \<Rightarrow> real tensor \<Rightarrow> py_error + real tensor" where
  "apply_loss_mask logits lmask =
     (case (bdim (size0 logits) (size0 lmask), bdim (size1 logits) (size1 lmask)) of
        (Some n0, Some n1) \<Rightarrow>
          Inr \<lparr>size1 = n1,
               rows = map2 (map2 mask_logit) (rows (expand n0 n1 logits)) (rows (expand n0 n1 lmask))\<rparr>
      | _ \<Rightarrow> Inl RuntimeError)"

fun argmax_from :: "real \<Rightarrow> nat \<Rightarrow> nat \<Rightarrow> real list \<Rightarrow> nat" where
  "argmax_from best bi i [] = bi"
| "argmax_from best bi i (x # xs) =
     (if best < x then argmax_from x i (Suc i) xs else argmax_from best bi (Suc i) xs)"

definition argmax_row :: "real list \<Rightarrow> nat" where
  "argmax_row r = (case r of [] \<Rightarrow> 0 | x # xs \<Rightarrow> argmax_from x 0 1 xs)"

text \<open>\<^verbatim>\<open>torch.argmax(logits, dim=-1)\<close>; a reduction over a dimension of size 0 is refused.\<close>

definition argmax_last :: "real tensor \<Rightarrow> py_error + int list" where
  "argmax_last t =
     (if size1 t = 0 then Inl IndexError else Inr (map (\<lambda>r. int (argmax_row r)) (rows t)))"

definition softmax_row :: "real list \<Rightarrow> real list" where
  "softmax_row r = map (\<lambda>x. exp x / sum_list (map exp r)) r"

subsection \<open>Dictionaries with insertion order\<close>

type_synonym 'v dict = "(string \<times> 'v) list"

definition dict_get :: "'v dict \<Rightarrow> string \<Rightarrow> py_error + 'v" where
  "dict_get d k = (case map_of d k of None \<Rightarrow> Inl KeyError | Some v \<Rightarrow> Inr v)"

fun dict_set :: "'v dict \<Rightarrow> string \<Rightarrow> 'v \<Rightarrow> 'v dict" where
  "dict_set [] k v = [(k, v)]"
| "dict_set ((k', v') # d) k v = (if k' = k then (k, v) # d else (k', v') # dict_set d k v)"

fun dict_gets :: "'v dict \<Rightarrow> string list \<Rightarrow> py_error + 'v list" where
  "dict_gets d [] = Inr []"
| "dict_gets d (k # ks) =
     (case dict_get d k of
        Inl e \<Rightarrow> Inl e
      | Inr v \<Rightarrow> (case dict_gets d ks of Inl e \<Rightarrow> Inl e | Inr vs \<Rightarrow> Inr (v # vs)))"

definition wf_dict :: "'v dict \<Rightarrow> bool" where
  "wf_dict d = distinct (map fst d)"

subsection \<open>Metric functions\<close>

type_synonym 'e metric = "int list \<Rightarrow> int list \<Rightarrow> 'e list option \<Rightarrow> py_error + real"

definition accuracy_metric :: "int list \<Rightarrow> int list \<Rightarrow> 'e list option \<Rightarrow> py_error + real" where
  "accuracy_metric predictions labels examples =
     (if length predictions \<noteq> length labels then Inl AssertionError
      else Inr (real (fold (\<lambda>(prediction, label) count. count + (if prediction = label then 1 else 0))
                        (zip predictions labels) (0::nat)) * 100))"

subsection \<open>Configuration, distributed context, batches\<close>

record args =
  pretrained_bert :: bool
  cloze_eval :: bool
  test_data :: "string list option"
  valid_data :: "string list option"
  batch_size :: nat
  num_workers :: nat
  load :: "string option"

text \<open>
  What the process reads from \<^verbatim>\<open>mpu\<close> and \<^verbatim>\<open>torch.distributed\<close>.
  \<open>peer_vectors name\<close> lists the vectors that the other members of the data-parallel
  group contribute to the reduction of the scoring pass over the dataset \<open>name\<close>; a group
  of size 1 has no peer.
\<close>

record dist_env =
  data_parallel_world_size :: nat
  rank :: nat
  peer_vectors :: "string \<Rightarrow> real list list"

text \<open>
  A batch as the scoring pass reads it: \<open>data\<close> holds the input tensors that
  \<^verbatim>\<open>process_batch\<close> returns under their keys, \<open>label\<close> is \<^verbatim>\<open>data['label']\<close>,
  \<open>loss_mask\<close> is \<^verbatim>\<open>data['loss_mask']\<close> when the key is present, \<open>uid\<close> is
  \<^verbatim>\<open>batch['uid']\<close> as a list.
\<close>

record 'a batch =
  data :: "string \<Rightarrow> 'a tensor option"
  label :: "int list option"
  loss_mask :: "real tensor option"
  uid :: "nat list"

fun lookups :: "('k \<Rightarrow> 'v option) \<Rightarrow> 'k list \<Rightarrow> py_error + 'v list" where
  "lookups d [] = Inr []"
| "lookups d (k # ks) =
     (case d k of
        None \<Rightarrow> Inl KeyError
      | Some v \<Rightarrow> (case lookups d ks of Inl e \<Rightarrow> Inl e | Inr vs \<Rightarrow> Inr (v # vs)))"

definition input_keys :: "args \<Rightarrow> string list" where
  "input_keys a =
     (if pretrained_bert a then [''text'', ''types'', ''attention_mask'']
      else if cloze_eval a then [''text'', ''position'', ''attention_mask'', ''target'', ''logit_mask'']
      else [''text'', ''position'', ''attention_mask''])"

definition batch_inputs :: "args \<Rightarrow> 'a batch \<Rightarrow> py_error + ('a tensor list \<times> int list)" where
  "batch_inputs a b =
     (case label b of
        None \<Rightarrow> Inl KeyError
      | Some labels' \<Rightarrow>
          (case lookups (data b) (input_keys a) of
             Inl e \<Rightarrow> Inl e
           | Inr inputs \<Rightarrow> Inr (inputs, labels')))"

subsection \<open>The scoring pass over the batches\<close>

type_synonym predictions = "real list list \<times> int list \<times> nat list"

record eval_state =
  total_seen :: nat
  score_dict :: "real dict"
  softmaxes :: "real list list"
  labels :: "int list"
  ids :: "nat list"

text \<open>
  \<^verbatim>\<open>for key, metric in metric_dict.items(): score_dict[key] += metric(...)\<close>
\<close>

fun add_metrics ::
  "'e metric dict \<Rightarrow> int list \<Rightarrow> int list \<Rightarrow> 'e list option \<Rightarrow> real dict \<Rightarrow> py_error + real dict"
where
  "add_metrics [] predicted labels' example_batch sd = Inr sd"
| "add_metrics ((key, metric) # rest) predicted labels' example_batch sd =
     (case dict_get sd key of
        Inl e \<Rightarrow> Inl e
      | Inr old \<Rightarrow>
          (case metric predicted labels' example_batch of
             Inl e \<Rightarrow> Inl e
           | Inr v \<Rightarrow> add_metrics rest predicted labels' example_batch (dict_set sd key (old + v))))"

definition example_batch_of :: "(nat \<Rightarrow> 'e option) option \<Rightarrow> nat list \<Rightarrow> py_error + 'e list option" where
  "example_batch_of examples' uid_list =
     (case examples' of
        None \<Rightarrow> Inr None
      | Some ex \<Rightarrow> (case lookups ex uid_list of Inl e \<Rightarrow> Inl e | Inr es \<Rightarrow> Inr (Some es)))"

text \<open>The body of the loop over the batches (lines 114 to 163).\<close>

definition eval_batch ::
  "args \<Rightarrow> 'a model \<Rightarrow> 'e metric dict \<Rightarrow> (nat \<Rightarrow> 'e option) option \<Rightarrow> bool \<Rightarrow> bool \<Rightarrow>
   eval_state \<Rightarrow> 'a batch \<Rightarrow> py_error + eval_state"
where
  "eval_batch a m metric_dict examples' output_predictions labeled' st b =
     bind_err (batch_inputs a b) (\<lambda>(inputs, labels').
     bind_err (forward m inputs) (\<lambda>logits0.
     bind_err (case loss_mask b of None \<Rightarrow> Inr logits0 | Some lm \<Rightarrow> apply_loss_mask logits0 lm)
       (\<lambda>logits.
     let st1 = (if output_predictions
                then st\<lparr>softmaxes := softmaxes st @ map softmax_row (rows logits),
                        labels := labels st @ labels',
                        ids := ids st @ uid b\<rparr>
                else st)
     in
     bind_err (example_batch_of examples' (uid b)) (\<lambda>example_batch.
     bind_err (argmax_last logits) (\<lambda>predicted.
     bind_err (if labeled'
               then add_metrics metric_dict predicted labels' example_batch (score_dict st1)
               else Inr (score_dict st1)) (\<lambda>sd.
     Inr (st1\<lparr>score_dict := sd, total_seen := total_seen st1 + length labels'\<rparr>)))))))"

fun eval_batches ::
  "args \<Rightarrow> 'a model \<Rightarrow> 'e metric dict \<Rightarrow> (nat \<Rightarrow> 'e option) option \<Rightarrow> bool \<Rightarrow> bool \<Rightarrow>
   eval_state \<Rightarrow> 'a batch list \<Rightarrow> py_error + eval_state"
where
  "eval_batches a m metric_dict examples' output_predictions labeled' st [] = Inr st"
| "eval_batches a m metric_dict examples' output_predictions labeled' st (b # bs) =
     (case eval_batch a m metric_dict examples' output_predictions labeled' st b of
        Inl e \<Rightarrow> Inl e
      | Inr st' \<Rightarrow> eval_batches a m metric_dict examples' output_predictions labeled' st' bs)"

definition init_state :: "'e metric dict \<Rightarrow> eval_state" where
  "init_state metric_dict =
     \<lparr>total_seen = 0, score_dict = map (\<lambda>(key, metric). (key, 0)) metric_dict,
      softmaxes = [], labels = [], ids = []\<rparr>"

text \<open>Lines 102 to 163: everything between \<^verbatim>\<open>model.eval()\<close> and \<^verbatim>\<open>model.train()\<close>.\<close>

definition scoring_pass ::
  "dist_env \<Rightarrow> args \<Rightarrow> 'a model \<Rightarrow> 'e metric dict \<Rightarrow> (nat \<Rightarrow> 'e option) option \<Rightarrow> bool \<Rightarrow> bool \<Rightarrow>
   'a batch list \<Rightarrow> py_error + eval_state"
where
  "scoring_pass env a m metric_dict examples' output_predictions labeled' dataloader =
     (if output_predictions \<and> data_parallel_world_size env \<noteq> 1 then Inl AssertionError
      else eval_batches a m metric_dict examples' output_predictions labeled'
             (init_state metric_dict) dataloader)"

subsection \<open>Single precision\<close>

text \<open>Rounding to the nearest integer, ties to the even one.\<close>

definition round_half_even :: "real \<Rightarrow> int" where
  "round_half_even y =
     (let f = \<lfloor>y\<rfloor>; d = y - of_int f
      in if d < 1 / 2 then f else if 1 / 2 < d then f + 1 else if even f then f else f + 1)"

text \<open>
  The value that \<^verbatim>\<open>torch.cuda.FloatTensor\<close> stores for a number: the nearest number
  with a significand of 24 bits, ties to even. Below \<open>2 powi (- 126)\<close> the spacing stays
  that of the subnormal numbers. The exponent is not bounded above: the sums and counts of
  an evaluation stay far below \<open>2 ^ 128\<close>, where the source would store infinity.
\<close>

definition f32_exponent :: "real \<Rightarrow> int" where
  "f32_exponent x = max (- 126) \<lfloor>log 2 \<bar>x\<bar>\<rfloor>"

definition to_float32 :: "real \<Rightarrow> real" where
  "to_float32 x =
     (if x = 0 then 0
      else let q = 2 powi (f32_exponent x - 23) in of_int (round_half_even (x / q)) * q)"

subsection \<open>Reduction across the data-parallel group\<close>

text \<open>
  \<^verbatim>\<open>torch.distributed.all_reduce\<close> with the default sum, on single-precision vectors:
  every member contributes a vector of the same length and receives the elementwise sum,
  each addition rounded to single precision. The peers' vectors are added in the order of
  the list. Peers that present a vector of another length have left the protocol; the
  model reports that as an error.
\<close>

definition all_reduce :: "real list \<Rightarrow> real list list \<Rightarrow> py_error + real list" where
  "all_reduce v peers =
     (if list_all (\<lambda>p. length p = length v) peers
      then Inr (foldl (\<lambda>acc p. map to_float32 (map2 (+) acc p)) v peers)
      else Inl CollectiveMismatch)"

text \<open>
  \<^verbatim>\<open>for i, key in enumerate(keys): score_dict[key] = unreduced[i]\<close>. The reduction
  works in place, so the vector read here has one entry per key and the total after them.
\<close>

definition unpack :: "string list \<Rightarrow> real list \<Rightarrow> real dict \<Rightarrow> real dict" where
  "unpack keys reduced sd = fold (\<lambda>(key, v) d. dict_set d key v) (zip keys reduced) sd"

text \<open>
  Lines 167 to 177: the keys are sorted, the sums and the total are packed into one
  single-precision vector (line 170), the vector is reduced, and the result is written
  back.
\<close>

definition reduce_scores :: "real list list \<Rightarrow> eval_state \<Rightarrow> py_error + (real dict \<times> real)" where
  "reduce_scores peers st =
     (let keys = sort (map fst (score_dict st)) in
      case dict_gets (score_dict st) keys of
        Inl e \<Rightarrow> Inl e
      | Inr vals \<Rightarrow>
          (case all_reduce (map to_float32 (vals @ [real (total_seen st)])) peers of
             Inl e \<Rightarrow> Inl e
           | Inr reduced \<Rightarrow> Inr (unpack keys reduced (score_dict st), last reduced)))"

text \<open>
  Lines 179 to 182: the log line computes \<^verbatim>\<open>value / total_count\<close> for every key; both
  operands are floats, so a zero \<^verbatim>\<open>total_count\<close> raises there.
\<close>

definition log_rates :: "real dict \<Rightarrow> real \<Rightarrow> py_error + unit" where
  "log_rates sd total_count =
     (if sd \<noteq> [] \<and> total_count = 0 then Inl ZeroDivisionError else Inr ())"

text \<open>
  \<^verbatim>\<open>evaluate_metrics\<close>: the model after the call, and what the call returns or raises.
  \<^verbatim>\<open>epoch\<close> and the timer only feed the log line and are left out.
\<close>

definition evaluate_metrics ::
  "dist_env \<Rightarrow> string \<Rightarrow> 'a model \<Rightarrow> 'a batch list \<Rightarrow> 'e metric dict \<Rightarrow> (nat \<Rightarrow> 'e option) option \<Rightarrow>
   bool \<Rightarrow> args \<Rightarrow> bool \<Rightarrow> 'a model \<times> (py_error + (real dict \<times> real \<times> predictions option))"
where
  "evaluate_metrics env name m dataloader metric_dict examples' output_predictions a labeled' =
     (let m1 = model_eval m in
      case scoring_pass env a m1 metric_dict examples' output_predictions labeled' dataloader of
        Inl e \<Rightarrow> (m1, Inl e)
      | Inr st \<Rightarrow>
          (let m2 = model_train m1 in
           (m2, case reduce_scores (peer_vectors env name) st of
                  Inl e \<Rightarrow> Inl e
                | Inr (sd, total_count) \<Rightarrow>
                    (case log_rates sd total_count of
                       Inl e \<Rightarrow> Inl e
                     | Inr u \<Rightarrow>
                         Inr (sd, total_count,
                              if output_predictions then Some (softmaxes st, labels st, ids st)
                              else None)))))"

subsection \<open>Datasets and dataloaders\<close>

text \<open>
  What the source reads from a dataset: its name, its \<^verbatim>\<open>labeled\<close> flag, and the
  \<^verbatim>\<open>examples\<close> attribute when it has one.
\<close>

record 'e dataset =
  dataset_name :: string
  labeled :: bool
  examples :: "(nat \<Rightarrow> 'e option) option"

record 'e dataloader =
  dataset :: "'e dataset"
  loader_batch_size :: nat
  loader_num_workers :: nat
  drop_last :: bool
  shuffle :: bool

text \<open>
  Modelled from the spec: \<^verbatim>\<open>build_data_loader\<close> of \<^verbatim>\<open>tasks/data_utils.py\<close> is
  not among the sources. It wraps a dataset in a dataloader configured with the batch size,
  the worker count, the drop-last flag and the shuffle flag it is given.
\<close>

definition build_data_loader :: "'e dataset \<Rightarrow> nat \<Rightarrow> nat \<Rightarrow> bool \<Rightarrow> bool \<Rightarrow> 'e dataloader" where
  "build_data_loader ds bs nw dl sh =
     \<lparr>dataset = ds, loader_batch_size = bs, loader_num_workers = nw, drop_last = dl, shuffle = sh\<rparr>"

subsection \<open>accuracy\_func\_provider: building the dataloaders\<close>

definition datapaths :: "args \<Rightarrow> bool \<Rightarrow> string list" where
  "datapaths a is_test =
     (if is_test then (case test_data a of Some ps \<Rightarrow> ps | None \<Rightarrow> [''test''])
      else (case valid_data a of Some ps \<Rightarrow> ps | None \<Rightarrow> [''dev'']))"

definition dataloaders ::
  "dist_env \<Rightarrow> (string \<Rightarrow> 'e dataset) \<Rightarrow> args \<Rightarrow> bool \<Rightarrow> (string \<times> 'e dataloader) list"
where
  "dataloaders env single_dataset_provider a is_test =
     map (\<lambda>datapath.
            let ds = single_dataset_provider datapath;
                dl = build_data_loader ds (batch_size a) (num_workers a)
                       (data_parallel_world_size env > 1) False
            in (dataset_name ds, dl))
         (datapaths a is_test)"

subsection \<open>metrics\_func: combining the datasets\<close>

text \<open>\<^verbatim>\<open>os.path.join(a, b)\<close> of \<^verbatim>\<open>posixpath\<close>, for two components.\<close>

definition os_path_join :: "string \<Rightarrow> string \<Rightarrow> string" where
  "os_path_join a b =
     (if take 1 b = ''/'' then b
      else if a = [] \<or> last a = CHR ''/'' then a @ b
      else a @ ''/'' @ b)"

record metrics_acc =
  acc_scores :: "real dict"
  acc_total :: real
  named_predictions :: "(string \<times> predictions) list"
  names :: string

text \<open>\<^verbatim>\<open>for key in score_dict: score_dict[key] += single_dict[key]\<close>\<close>

fun add_scores :: "string list \<Rightarrow> real dict \<Rightarrow> real dict \<Rightarrow> py_error + real dict" where
  "add_scores [] sd single_dict = Inr sd"
| "add_scores (key # keys) sd single_dict =
     (case dict_get sd key of
        Inl e \<Rightarrow> Inl e
      | Inr old \<Rightarrow>
          (case dict_get single_dict key of
             Inl e \<Rightarrow> Inl e
           | Inr v \<Rightarrow> add_scores keys (dict_set sd key (old + v)) single_dict))"

text \<open>
  The loop over the dataloaders (lines 61 to 75). \<open>batches_of\<close> is what iterating a
  dataloader yields. The model is threaded through the calls of \<open>evaluate_metrics\<close>.
\<close>

fun metrics_loop ::
  "dist_env \<Rightarrow> ('e dataloader \<Rightarrow> 'a batch list) \<Rightarrow> 'e metric dict \<Rightarrow> bool \<Rightarrow> args \<Rightarrow>
   'a model \<Rightarrow> metrics_acc \<Rightarrow> (string \<times> 'e dataloader) list \<Rightarrow> 'a model \<times> (py_error + metrics_acc)"
where
  "metrics_loop env batches_of metric_dict output_predictions a m acc [] = (m, Inr acc)"
| "metrics_loop env batches_of metric_dict output_predictions a m acc ((name, dl) # rest) =
     (case evaluate_metrics env name m (batches_of dl) metric_dict (examples (dataset dl))
             output_predictions a (labeled (dataset dl)) of
        (m', Inl e) \<Rightarrow> (m', Inl e)
      | (m', Inr (single_dict, total_count, preds)) \<Rightarrow>
          (case add_scores (map fst (acc_scores acc)) (acc_scores acc) single_dict of
             Inl e \<Rightarrow> (m', Inl e)
           | Inr sd \<Rightarrow>
               metrics_loop env batches_of metric_dict output_predictions a m'
                 \<lparr>acc_scores = sd,
                  acc_total = acc_total acc + total_count,
                  named_predictions =
                    (case preds of
                       None \<Rightarrow> named_predictions acc
                     | Some p \<Rightarrow> named_predictions acc @ [(name, p)]),
                  names = (case preds of None \<Rightarrow> names acc | Some p \<Rightarrow> names acc @ ''_'' @ name)\<rparr>
                 rest))"

definition init_acc :: "'e metric dict \<Rightarrow> metrics_acc" where
  "init_acc metric_dict =
     \<lparr>acc_scores = map (\<lambda>(key, metric). (key, 0)) metric_dict, acc_total = 0,
      named_predictions = [], names = ''predictions''\<rparr>"

text \<open>
  What one call of \<^verbatim>\<open>metrics_func\<close> leaves behind: the model, the value returned or the
  exception raised, what happened at the prediction file, and the scalars given to the
  summary writer.
\<close>

datatype save_outcome =
    NotAttempted
  | LoadUnset
  | Saved string "(string \<times> predictions) list"

record 'a metrics_result =
  model_after :: "'a model"
  returned :: "py_error + real dict"
  save :: save_outcome
  scalars :: "(string \<times> real \<times> int) list"

definition metrics_func ::
  "dist_env \<Rightarrow> ('e dataloader \<Rightarrow> 'a batch list) \<Rightarrow> 'e metric dict \<Rightarrow> args \<Rightarrow> bool \<Rightarrow>
   (string \<times> 'e dataloader) list \<Rightarrow> 'a model \<Rightarrow> int \<Rightarrow> bool \<Rightarrow> bool \<Rightarrow> 'a metrics_result"
where
  "metrics_func env batches_of metric_dict a is_test dls m epoch output_predictions summary_writer =
     (if output_predictions \<and> data_parallel_world_size env \<noteq> 1
      then \<lparr>model_after = m, returned = Inl AssertionError, save = NotAttempted, scalars = []\<rparr>
      else
        (case metrics_loop env batches_of metric_dict output_predictions a m
                (init_acc metric_dict) dls of
           (m', Inl e) \<Rightarrow>
             \<lparr>model_after = m', returned = Inl e, save = NotAttempted, scalars = []\<rparr>
         | (m', Inr acc) \<Rightarrow>
             if acc_scores acc \<noteq> [] \<and> acc_total acc = 0
             then \<lparr>model_after = m', returned = Inl ZeroDivisionError, save = NotAttempted,
                   scalars = []\<rparr>
             else
               (let rates = map (\<lambda>(key, score). (key, score / acc_total acc)) (acc_scores acc);
                    sc = (if summary_writer \<and> epoch \<ge> 0 \<and> \<not> is_test
                          then map (\<lambda>(key, score). (''Train/valid_'' @ key, score, epoch)) rates
                          else [])
                in if output_predictions \<and> rank env = 0
                   then (case load a of
                           None \<Rightarrow>
                             \<lparr>model_after = m', returned = Inl AssertionError, save = LoadUnset,
                              scalars = sc\<rparr>
                         | Some dir \<Rightarrow>
                             \<lparr>model_after = m', returned = Inr rates,
                              save = Saved (os_path_join dir (names acc @ ''.pt''))
                                       (named_predictions acc),
                              scalars = sc\<rparr>)
                   else \<lparr>model_after = m', returned = Inr rates, save = NotAttempted,
                         scalars = sc\<rparr>)))"

text \<open>\<^verbatim>\<open>accuracy_func_provider\<close> builds the dataloaders once and returns the closure.\<close>

definition accuracy_func_provider ::
  "dist_env \<Rightarrow> ('e dataloader \<Rightarrow> 'a batch list) \<Rightarrow> (string \<Rightarrow> 'e dataset) \<Rightarrow> 'e metric dict \<Rightarrow>
   args \<Rightarrow> bool \<Rightarrow> 'a model \<Rightarrow> int \<Rightarrow> bool \<Rightarrow> bool \<Rightarrow> 'a metrics_result"
where
  "accuracy_func_provider env batches_of single_dataset_provider metric_dict a is_test =
     metrics_func env batches_of metric_dict a is_test
       (dataloaders env single_dataset_provider a is_test)"

text \<open>
  The four-decimal rendering \<^verbatim>\<open>{:.4f}\<close> of the log lines, as a number: the nearest
  multiple of \<open>1 / 10000\<close>, ties to even.
\<close>

definition fmt4 :: "real \<Rightarrow> real" where
  "fmt4 x = real_of_int (round_half_even (x * 10000)) / 10000"

subsection \<open>Notions used in the statements\<close>



subsection \<open>Sample inputs\<close>

definition echo_model :: "int model" where
  "echo_model =
     \<lparr>training = True,
      call = (\<lambda>tr xs. case xs of
                         [] \<Rightarrow> \<lparr>size1 = 0, rows = []\<rparr>
                       | t # ts \<Rightarrow> \<lparr>size1 = size1 t, rows = map (map real_of_int) (rows t)\<rparr>)\<rparr>"


definition row3 :: "int tensor" where
  "row3 = \<lparr>size1 = 3, rows = [[5, 6, 7]]\<rparr>"

definition empty_seq :: "int tensor" where
  "empty_seq = \<lparr>size1 = 0, rows = [[]]\<rparr>"

definition logits22 :: "real tensor" where
  "logits22 = \<lparr>size1 = 2, rows = [[3, -1], [0, 4]]\<rparr>"

definition ones22 :: "real tensor" where
  "ones22 = \<lparr>size1 = 2, rows = [[1, 1], [1, 1]]\<rparr>"

definition args0 :: args where
  "args0 = \<lparr>pretrained_bert = False, cloze_eval = False, test_data = None, valid_data = None,
            batch_size = 2, num_workers = 1, load = Some ''ckpt''\<rparr>"

text \<open>One process alone, and a process with one peer that reports sums and totals.\<close>

definition env1 :: dist_env where
  "env1 = \<lparr>data_parallel_world_size = 1, rank = 0, peer_vectors = (\<lambda>n. [])\<rparr>"

definition env2 :: dist_env where
  "env2 = \<lparr>data_parallel_world_size = 2, rank = 0,
           peer_vectors = (\<lambda>n. if n = ''d1'' then [[80, 100]] else [[150, 200]])\<rparr>"

definition acc_dict :: "unit metric dict" where
  "acc_dict = [(''accuracy'', accuracy_metric)]"

definition failing_metric :: "unit metric" where
  "failing_metric predictions labels' examples' = Inl (Raised ''metric failed'')"

definition tokens23 :: "int tensor" where
  "tokens23 = \<lparr>size1 = 3, rows = [[5, 6, 7], [9, 1, 2]]\<rparr>"

definition pair_batch :: "int batch" where
  "pair_batch =
     \<lparr>data = map_of [(''text'', tokens23), (''position'', tokens23), (''attention_mask'', tokens23)],
      label = Some [2, 1], loss_mask = None, uid = [0, 1]\<rparr>"

definition pair_state :: eval_state where
  "pair_state =
     \<lparr>total_seen = 2, score_dict = [(''accuracy'', 100)], softmaxes = [], labels = [], ids = []\<rparr>"

text \<open>
  One example with one label, a peer that has counted \<open>2 ^ 24\<close> examples, and an
  accumulator after 671089 correct answers among 700000.
\<close>

definition single_batch :: "int batch" where
  "single_batch =
     \<lparr>data = map_of [(''text'', row3), (''position'', row3), (''attention_mask'', row3)],
      label = Some [2], loss_mask = None, uid = [0]\<rparr>"

definition env3 :: dist_env where
  "env3 = \<lparr>data_parallel_world_size = 2, rank = 0, peer_vectors = (\<lambda>n. [[0, 16777216]])\<rparr>"

definition big_state :: eval_state where
  "big_state =
     \<lparr>total_seen = 700000, score_dict = [(''accuracy'', 67108900)], softmaxes = [], labels = [],
      ids = []\<rparr>"

definition sample_loader :: "string \<Rightarrow> unit dataloader" where
  "sample_loader name =
     build_data_loader \<lparr>dataset_name = name, labeled = True, examples = None\<rparr> 2 1 False False"

definition no_batches :: "unit dataloader \<Rightarrow> int batch list" where
  "no_batches dl = []"

definition one_batch :: "unit dataloader \<Rightarrow> int batch list" where
  "one_batch dl = [pair_batch]"

section \<open>Auxiliary facts\<close>

subsection \<open>Single precision\<close>

lemma round_half_even_of_int: "round_half_even (of_int k) = k"
  by (simp add: round_half_even_def)

lemma round_half_even_nonneg: "0 \<le> y \<Longrightarrow> 0 \<le> round_half_even y"
  by (auto simp: round_half_even_def Let_def)

lemma f32_exponent_eqI:
  assumes "2 powi e \<le> \<bar>x\<bar>" and "\<bar>x\<bar> < 2 powi (e + 1)" and "- 126 \<le> e"
  shows "f32_exponent x = e"
proof -
  have pos: "0 < \<bar>x\<bar>" using assms(1) by (smt (verit) zero_less_power_int)
  have a: "(2::real) powr real_of_int e = 2 powi e"
    by (simp add: powr_real_of_int')
  have b: "(2::real) powr (real_of_int e + 1) = 2 powi (e + 1)"
    using powr_real_of_int' [of "2::real" "e + 1"] by simp
  have "\<lfloor>log 2 \<bar>x\<bar>\<rfloor> = e"
    using assms pos by (simp add: floor_log_eq_powr_iff a b)
  then show ?thesis using assms(3) by (simp add: f32_exponent_def)
qed

text \<open>The rounding of a number of known magnitude, with the spacing as a power of 2.\<close>

lemma to_float32_coarse:
  assumes "2 ^ (23 + k) \<le> \<bar>x\<bar>" and "\<bar>x\<bar> < 2 ^ (24 + k)"
  shows "to_float32 x = of_int (round_half_even (x / 2 ^ k)) * 2 ^ k"
proof -
  have "x \<noteq> 0" using assms(1) by (smt (verit) zero_less_power)
  moreover have "f32_exponent x = 23 + int k"
    using assms by (intro f32_exponent_eqI) (simp_all add: power_int_def nat_add_distrib)
  ultimately show ?thesis by (simp add: to_float32_def Let_def power_int_def)
qed

lemma to_float32_fine:
  assumes "x \<noteq> 0" and "2 ^ 23 \<le> \<bar>x\<bar> * 2 ^ k" and "\<bar>x\<bar> * 2 ^ k < 2 ^ 24" and "k \<le> 149"
  shows "to_float32 x = of_int (round_half_even (x * 2 ^ k)) / 2 ^ k"
proof -
  have p: "(2::real) powi (23 - int k) = 2 ^ 23 / 2 ^ k"
    by (simp add: power_int_diff)
  have q: "(2::real) powi (24 - int k) = 2 ^ 24 / 2 ^ k"
    by (simp add: power_int_diff)
  have e: "f32_exponent x = 23 - int k"
  proof (rule f32_exponent_eqI)
    show "2 powi (23 - int k) \<le> \<bar>x\<bar>" unfolding p using assms(2) by (simp add: field_simps)
    have "23 - int k + 1 = 24 - int k" by simp
    then show "\<bar>x\<bar> < 2 powi (23 - int k + 1)"
      unfolding q using assms(3) by (simp add: q field_simps)
    show "- 126 \<le> 23 - int k" using assms(4) by simp
  qed
  have r: "(2::real) powi (- int k) = 1 / 2 ^ k"
    by (simp add: power_int_minus field_simps)
  show ?thesis using assms(1)
    by (simp add: to_float32_def Let_def e r)
qed

lemma to_float32_nonneg: "0 \<le> x \<Longrightarrow> 0 \<le> to_float32 x"
  by (auto simp: to_float32_def Let_def
      intro!: mult_nonneg_nonneg round_half_even_nonneg divide_nonneg_nonneg)

lemma f32_exponent_small:
  assumes "x \<noteq> 0" and "\<bar>x\<bar> < 2 ^ 24"
  shows "f32_exponent x \<le> 23"
proof -
  have "log 2 \<bar>x\<bar> < 24"
    using assms by (simp add: log_less_iff powr_realpow [symmetric])
  then have "\<lfloor>log 2 \<bar>x\<bar>\<rfloor> < 24" by (simp add: floor_less_iff)
  then show ?thesis by (simp add: f32_exponent_def)
qed

text \<open>Integers up to \<open>2 ^ 24\<close> in magnitude are stored exactly.\<close>

lemma to_float32_of_int_small:
  assumes "\<bar>n\<bar> < 2 ^ 24"
  shows "to_float32 (of_int n) = of_int n"
proof (cases "n = 0")
  case True
  then show ?thesis by (simp add: to_float32_def)
next
  case False
  let ?x = "real_of_int n"
  have x: "?x \<noteq> 0" using False by simp
  have "\<bar>?x\<bar> < 2 ^ 24" using assms by (metis of_int_abs of_int_less_numeral_power_cancel_iff)
  then have e: "f32_exponent ?x \<le> 23" using x by (rule f32_exponent_small [rotated])
  define k where "k = nat (23 - f32_exponent ?x)"
  have q: "(2::real) powi (f32_exponent ?x - 23) = 1 / 2 ^ k"
    using e by (simp add: k_def power_int_def field_simps)
  have "?x / (1 / 2 ^ k) = of_int (n * 2 ^ k)" by simp
  then have "round_half_even (?x / (1 / 2 ^ k)) = n * 2 ^ k"
    by (simp only: round_half_even_of_int)
  then show ?thesis using x by (simp add: to_float32_def Let_def q)
qed

lemma to_float32_of_int:
  assumes "\<bar>n\<bar> \<le> 2 ^ 24"
  shows "to_float32 (of_int n) = of_int n"
proof (cases "\<bar>n\<bar> < 2 ^ 24")
  case True
  then show ?thesis by (rule to_float32_of_int_small)
next
  case False
  with assms have "n = 16777216 \<or> n = - 16777216" by auto
  moreover have "to_float32 16777216 = 16777216"
    by (subst to_float32_coarse [where k = 1]) (simp_all add: round_half_even_def)
  moreover have "to_float32 (- 16777216) = - 16777216"
    by (subst to_float32_coarse [where k = 1]) (simp_all add: round_half_even_def)
  ultimately show ?thesis by auto
qed

lemma to_float32_of_nat: "n \<le> 2 ^ 24 \<Longrightarrow> to_float32 (real n) = real n"
  using to_float32_of_int [of "int n"] by simp

lemma to_float32_zero: "to_float32 0 = 0"
  by (simp add: to_float32_def)

lemma to_float32_one: "to_float32 1 = 1"
  using to_float32_of_int [of 1] by simp


lemma to_float32_67108900: "to_float32 67108900 = 67108896"
  by (subst to_float32_coarse [where k = 3]) (simp_all add: round_half_even_def)

lemma to_float32_numeral:
  "numeral w \<le> (16777216 :: int) \<Longrightarrow> to_float32 (numeral w) = numeral w"
  using to_float32_of_int [of "numeral w"] by simp

lemma to_float32_pos:
  assumes "1 \<le> x"
  shows "0 < to_float32 x"
proof -
  have x: "x \<noteq> 0" "0 < x" using assms by simp_all
  have l: "0 \<le> log 2 x" using assms by simp
  then have "0 \<le> \<lfloor>log 2 x\<rfloor>" by simp
  then have e: "f32_exponent x = \<lfloor>log 2 x\<rfloor>"
    unfolding f32_exponent_def using x(2) by (simp only: abs_of_pos)
  let ?q = "(2::real) powi (f32_exponent x - 23)"
  have qpos: "0 < ?q" by simp
  have "2 powr (real_of_int \<lfloor>log 2 x\<rfloor>) \<le> 2 powr (log 2 x)"
    by (intro powr_mono) simp_all
  then have "2 powi \<lfloor>log 2 x\<rfloor> \<le> x" using x by (simp add: powr_real_of_int')
  then have "2 powi (f32_exponent x) \<le> x" by (simp add: e)
  moreover have "(2::real) powi (f32_exponent x) = ?q * 2 ^ 23"
    by (simp add: power_int_diff)
  ultimately have "2 ^ 23 \<le> x / ?q" using qpos by (simp add: field_simps)
  moreover have "(1::real) \<le> 2 ^ 23" by simp
  ultimately have "1 \<le> x / ?q" by (rule order_trans [rotated])
  then have fl: "1 \<le> \<lfloor>x / ?q\<rfloor>" by (simp add: le_floor_iff)
  have "\<lfloor>x / ?q\<rfloor> \<le> round_half_even (x / ?q)"
    by (auto simp: round_half_even_def Let_def)
  with fl have "0 < round_half_even (x / ?q)" by linarith
  then show ?thesis using x qpos by (simp add: to_float32_def Let_def)
qed

text \<open>Sums that are rounded after every addition.\<close>

lemma round_sum_nonneg:
  "0 \<le> x \<Longrightarrow> list_all (\<lambda>t. 0 \<le> t) ts \<Longrightarrow> 0 \<le> foldl (\<lambda>acc t. to_float32 (acc + t)) x ts"
  by (induction ts arbitrary: x) (simp_all add: to_float32_nonneg)


subsection \<open>Slices and chunks\<close>


lemma num_chunks_small: "0 < n \<Longrightarrow> n \<le> segment_length \<Longrightarrow> num_chunks n = 1"
  by (simp add: num_chunks_def segment_length_def)





lemma slice1_whole: "wf_tensor t \<Longrightarrow> size1 t \<le> b \<Longrightarrow> slice1 0 b t = t"
  by (cases t) (simp add: slice1_def wf_tensor_def list_all_iff map_idI)




subsection \<open>The loss mask\<close>

lemma map2_mask_ones:
  "length ms = length r \<Longrightarrow> list_all (\<lambda>x. x = 1) ms \<Longrightarrow> map2 mask_logit r ms = r"
  by (induction r ms rule: list_induct2') (auto simp: mask_logit_def)

lemma map2_rows_ones:
  "length mrs = length rs \<Longrightarrow> list_all (\<lambda>r. length r = n) rs \<Longrightarrow>
   list_all (\<lambda>r. length r = n) mrs \<Longrightarrow> list_all (list_all (\<lambda>x. x = 1)) mrs \<Longrightarrow>
   map2 (map2 mask_logit) rs mrs = rs"
  by (induction rs mrs rule: list_induct2') (auto simp: map2_mask_ones)

lemma expand_same: "expand (size0 t) (size1 t) t = t"
  by (cases t) (simp add: expand_def size0_def)

lemma apply_loss_mask_same_shape:
  "size0 lmask = size0 logits \<Longrightarrow> size1 lmask = size1 logits \<Longrightarrow>
   apply_loss_mask logits lmask =
     Inr \<lparr>size1 = size1 logits, rows = map2 (map2 mask_logit) (rows logits) (rows lmask)\<rparr>"
  using expand_same [of logits] expand_same [of lmask]
  by (simp add: apply_loss_mask_def bdim_def)

subsection \<open>Dictionaries\<close>

lemma dict_set_same: "map_of d k = Some v \<Longrightarrow> dict_set d k v = d"
  by (induction d) (auto split: if_splits)

lemma dict_set_keys: "k \<in> fst ` set d \<Longrightarrow> map fst (dict_set d k v) = map fst d"
  by (induction d) force+

lemma dict_set_map_of: "map_of (dict_set d k v) = (map_of d)(k \<mapsto> v)"
  by (induction d) (auto simp: fun_eq_iff)

lemma dict_get_Inr: "dict_get d k = Inr v \<longleftrightarrow> map_of d k = Some v"
  by (simp add: dict_get_def split: option.splits)

lemma dict_get_in_keys: "dict_get d k = Inr v \<Longrightarrow> k \<in> fst ` set d"
  by (metis dict_get_Inr domI dom_map_of_conv_image_fst)

lemma key_has_value: "k \<in> fst ` set d \<Longrightarrow> \<exists>v. map_of d k = Some v"
  by (metis domD dom_map_of_conv_image_fst)

lemma dict_gets_present:
  "set ks \<subseteq> fst ` set d \<Longrightarrow> dict_gets d ks = Inr (map (\<lambda>k. the (map_of d k)) ks)"
proof (induction ks)
  case Nil
  then show ?case by simp
next
  case (Cons k ks)
  then obtain v where "map_of d k = Some v"
    using key_has_value [of k d] by auto
  with Cons show ?case by (simp add: dict_get_def)
qed

lemma unpack_same:
  "set ks \<subseteq> fst ` set d \<Longrightarrow>
   fold (\<lambda>(key, v) d'. dict_set d' key v) (zip ks (map (\<lambda>k. the (map_of d k)) ks @ extra)) d = d"
proof (induction ks)
  case Nil
  then show ?case by simp
next
  case (Cons k ks)
  then obtain v where "map_of d k = Some v"
    using key_has_value [of k d] by auto
  with Cons show ?case by (simp add: dict_set_same)
qed

lemma unpack_keys: "set ks \<subseteq> fst ` set d \<Longrightarrow> map fst (unpack ks vs d) = map fst d"
proof (induction ks arbitrary: vs d)
  case Nil
  then show ?case by (simp add: unpack_def)
next
  case (Cons k ks)
  show ?case
  proof (cases vs)
    case Nil
    then show ?thesis by (simp add: unpack_def)
  next
    case (Cons v vs')
    have k: "k \<in> fst ` set d" using Cons.prems by simp
    have "set ks \<subseteq> fst ` set (dict_set d k v)"
      using Cons.prems dict_set_keys [OF k, of v]
      by (metis list.set_map set_subset_Cons subset_trans)
    from Cons.IH [OF this, of vs'] dict_set_keys [OF k, of v] Cons show ?thesis
      by (simp add: unpack_def)
  qed
qed

lemma map_fst_zero: "map fst (map (\<lambda>(key, metric). (key, z)) md) = map fst md"
  by (induction md) auto

lemma map_of_zero:
  "key \<in> fst ` set md \<Longrightarrow> map_of (map (\<lambda>(key, metric). (key, z)) md) key = Some z"
  by (induction md) auto

lemma map_of_rates:
  "map_of (map (\<lambda>(key, score). (key, f score)) d) k = map_option f (map_of d k)"
  by (induction d) auto

subsection \<open>The reduction\<close>

lemma unpack_map_of:
  "map_of (fold (\<lambda>(key, v) d'. dict_set d' key v) (zip ks (map h ks @ extra)) d)
     = (\<lambda>k. if k \<in> set ks then Some (h k) else map_of d k)"
proof (induction ks arbitrary: d)
  case Nil
  then show ?case by simp
next
  case (Cons k ks)
  show ?case using Cons.IH [of "dict_set d k (h k)"]
    by (auto simp: dict_set_map_of fun_eq_iff)
qed

lemma dict_eqI:
  "distinct (map fst d1) \<Longrightarrow> map fst d1 = map fst d2 \<Longrightarrow> map_of d1 = map_of d2 \<Longrightarrow> d1 = d2"
proof (induction d1 arbitrary: d2)
  case Nil
  then show ?case by simp
next
  case (Cons kv d1)
  obtain k v where kv: "kv = (k, v)" by (cases kv)
  from Cons.prems(2) kv obtain v' d2' where d2: "d2 = (k, v') # d2'" and keys: "map fst d1 = map fst d2'"
    by (cases d2) auto
  have "v = v'" using Cons.prems(3) kv d2 by (auto simp: fun_eq_iff split: if_splits)
  have notin: "k \<notin> fst ` set d1" "k \<notin> fst ` set d2'"
    using Cons.prems(1) kv keys by (auto simp flip: set_map)
  have "map_of d1 x = map_of d2' x" for x
  proof (cases "x = k")
    case True
    have "map_of d1 k = None" "map_of d2' k = None"
      using notin by (simp_all add: map_of_eq_None_iff)
    then show ?thesis using True by simp
  next
    case False
    then show ?thesis using Cons.prems(3) kv d2 by (auto simp: fun_eq_iff split: if_splits)
  qed
  then have "d1 = d2'" using Cons.IH [of d2'] Cons.prems(1) keys by auto
  then show ?case using kv d2 \<open>v = v'\<close> by simp
qed

lemma reduce_scores_unfold:
  "reduce_scores peers st
     = (case all_reduce (map (\<lambda>k. to_float32 (the (map_of (score_dict st) k)))
                           (sort (map fst (score_dict st)))
                         @ [to_float32 (real (total_seen st))]) peers of
          Inl e \<Rightarrow> Inl e
        | Inr reduced \<Rightarrow>
            Inr (unpack (sort (map fst (score_dict st))) reduced (score_dict st), last reduced))"
proof -
  let ?ks = "sort (map fst (score_dict st))"
  have sub: "set ?ks \<subseteq> fst ` set (score_dict st)" by simp
  have g: "dict_gets (score_dict st) ?ks = Inr (map (\<lambda>k. the (map_of (score_dict st) k)) ?ks)"
    using sub by (rule dict_gets_present)
  have p: "map to_float32 (map (\<lambda>k. the (map_of (score_dict st) k)) ?ks @ [real (total_seen st)])
             = map (\<lambda>k. to_float32 (the (map_of (score_dict st) k))) ?ks
               @ [to_float32 (real (total_seen st))]"
    by (simp add: comp_def)
  show ?thesis unfolding reduce_scores_def Let_def g sum.case p ..
qed

lemma all_reduce_no_peers: "all_reduce v [] = Inr v"
  by (simp add: all_reduce_def)

text \<open>Without peers every sum and the total come back rounded to single precision.\<close>

lemma reduce_scores_rounds:
  assumes "distinct (map fst (score_dict st))"
  shows "reduce_scores [] st
           = Inr (map (\<lambda>(key, v). (key, to_float32 v)) (score_dict st),
                  to_float32 (real (total_seen st)))"
proof -
  let ?sd = "score_dict st"
  let ?ks = "sort (map fst ?sd)"
  let ?h = "\<lambda>k. to_float32 (the (map_of ?sd k))"
  let ?out = "unpack ?ks (map ?h ?ks @ [to_float32 (real (total_seen st))]) ?sd"
  let ?target = "map (\<lambda>(key, v). (key, to_float32 v)) ?sd"
  have sub: "set ?ks \<subseteq> fst ` set ?sd" by simp
  have red: "reduce_scores [] st = Inr (?out, to_float32 (real (total_seen st)))"
    unfolding reduce_scores_unfold all_reduce_no_peers sum.case by simp
  have keys: "map fst ?out = map fst ?sd" using sub by (rule unpack_keys)
  have tkeys: "map fst ?target = map fst ?sd" by (simp add: comp_def split_beta)
  have "map_of ?out k = map_of ?target k" for k
  proof (cases "k \<in> fst ` set ?sd")
    case True
    then obtain v where "map_of ?sd k = Some v" using key_has_value [of k ?sd] by auto
    then show ?thesis using True
      by (simp add: unpack_def unpack_map_of map_of_rates)
  next
    case False
    then have "map_of ?sd k = None" by (simp add: map_of_eq_None_iff)
    then show ?thesis using False
      by (simp add: unpack_def unpack_map_of map_of_rates)
  qed
  then have maps: "map_of ?out = map_of ?target" by (rule ext)
  have "?out = ?target"
  proof (rule dict_eqI)
    show "distinct (map fst ?out)" unfolding keys by (rule assms)
    show "map fst ?out = map fst ?target" unfolding keys tkeys ..
    show "map_of ?out = map_of ?target" by (rule maps)
  qed
  then show ?thesis unfolding red by (simp only:)
qed

text \<open>Sums and totals that single precision stores exactly come back unchanged.\<close>

lemma reduce_scores_exact:
  assumes vals: "list_all (\<lambda>(key, v). to_float32 v = v) (score_dict st)"
    and tot: "to_float32 (real (total_seen st)) = real (total_seen st)"
  shows "reduce_scores [] st = Inr (score_dict st, real (total_seen st))"
proof -
  let ?sd = "score_dict st"
  let ?ks = "sort (map fst ?sd)"
  have sub: "set ?ks \<subseteq> fst ` set ?sd" by simp
  have "to_float32 (the (map_of ?sd k)) = the (map_of ?sd k)" if "k \<in> set ?ks" for k
  proof -
    from that sub obtain v where v: "map_of ?sd k = Some v" using key_has_value [of k ?sd] by auto
    then have "(k, v) \<in> set ?sd" by (rule map_of_SomeD)
    then show ?thesis using vals v by (auto simp: list_all_iff)
  qed
  then have eq: "map (\<lambda>k. to_float32 (the (map_of ?sd k))) ?ks = map (\<lambda>k. the (map_of ?sd k)) ?ks"
    by (intro map_cong) simp_all
  have "reduce_scores [] st
          = Inr (unpack ?ks (map (\<lambda>k. the (map_of ?sd k)) ?ks @ [real (total_seen st)]) ?sd,
                 last (map (\<lambda>k. the (map_of ?sd k)) ?ks @ [real (total_seen st)]))"
    unfolding reduce_scores_unfold all_reduce_no_peers sum.case eq tot ..
  then show ?thesis
    using unpack_same [OF sub, of "[real (total_seen st)]"] by (simp add: unpack_def)
qed

lemma last_all_reduce:
  "list_all (\<lambda>p. length p = length v) peers \<Longrightarrow> v \<noteq> [] \<Longrightarrow>
   last (foldl (\<lambda>acc p. map to_float32 (map2 (+) acc p)) v peers)
     = foldl (\<lambda>acc t. to_float32 (acc + t)) (last v) (map last peers)"
proof (induction peers arbitrary: v)
  case Nil
  then show ?case by simp
next
  case (Cons p peers)
  let ?w = "map to_float32 (map2 (+) v p)"
  have lp: "length p = length v" using Cons.prems by simp
  have len: "length ?w = length v" using lp by simp
  have ne: "?w \<noteq> []" using Cons.prems(2) len by (metis length_0_conv)
  have all: "list_all (\<lambda>q. length q = length ?w) peers"
    using Cons.prems(1) len by simp
  have ne2: "map2 (+) v p \<noteq> []" using ne by (metis list.map_disc_iff)
  have "last ?w = to_float32 (last (map2 (+) v p))" using ne2 by (rule last_map)
  moreover have "last (map2 (+) v p) = last v + last p"
    using lp Cons.prems(2)
    by (induction v p rule: list_induct2') (auto simp: last_ConsR split: if_splits)
  ultimately have lw: "last ?w = to_float32 (last v + last p)" by simp
  have "foldl (\<lambda>acc p. map to_float32 (map2 (+) acc p)) v (p # peers)
          = foldl (\<lambda>acc p. map to_float32 (map2 (+) acc p)) ?w peers"
    by simp
  then show ?case using Cons.IH [OF all ne] lw by simp
qed

lemma reduce_scores_total:
  assumes "reduce_scores peers st = Inr (sd, tc)"
  shows "tc = foldl (\<lambda>acc t. to_float32 (acc + t)) (to_float32 (real (total_seen st)))
                (map last peers)"
proof -
  let ?v = "map (\<lambda>k. to_float32 (the (map_of (score_dict st) k))) (sort (map fst (score_dict st)))
              @ [to_float32 (real (total_seen st))]"
  have ok: "list_all (\<lambda>p. length p = length ?v) peers"
  proof (rule ccontr)
    assume "\<not> list_all (\<lambda>p. length p = length ?v) peers"
    then have "all_reduce ?v peers = Inl CollectiveMismatch" by (simp only: all_reduce_def if_False)
    then show False using assms unfolding reduce_scores_unfold by simp
  qed
  then have "all_reduce ?v peers = Inr (foldl (\<lambda>acc p. map to_float32 (map2 (+) acc p)) ?v peers)"
    by (simp only: all_reduce_def if_True)
  then have "tc = last (foldl (\<lambda>acc p. map to_float32 (map2 (+) acc p)) ?v peers)"
    using assms unfolding reduce_scores_unfold by simp
  also have "\<dots> = foldl (\<lambda>acc t. to_float32 (acc + t)) (last ?v) (map last peers)"
    using ok by (rule last_all_reduce) simp
  finally show ?thesis by simp
qed

lemma reduce_scores_keys:
  assumes "reduce_scores peers st = Inr (sd, tc)"
  shows "map fst sd = map fst (score_dict st)"
proof -
  have sub: "set (sort (map fst (score_dict st))) \<subseteq> fst ` set (score_dict st)" by simp
  show ?thesis using assms unpack_keys [OF sub]
    by (auto simp: reduce_scores_def Let_def split: sum.splits)
qed

subsection \<open>The scoring pass\<close>




lemma add_metrics_keys:
  "add_metrics md p l ex sd = Inr sd' \<Longrightarrow> map fst sd' = map fst sd"
proof (induction md arbitrary: sd)
  case Nil
  then show ?case by simp
next
  case (Cons km md)
  obtain key metric where km: "km = (key, metric)" by (cases km)
  from Cons.prems km obtain old v where
    g: "dict_get sd key = Inr old" and r: "add_metrics md p l ex (dict_set sd key (old + v)) = Inr sd'"
    by (auto split: sum.splits)
  from Cons.IH [OF r] dict_set_keys [OF dict_get_in_keys [OF g]] show ?case by simp
qed

lemma eval_batch_keys:
  assumes "eval_batch a m md ex op lab st b = Inr st'"
  shows "map fst (score_dict st') = map fst (score_dict st)"
  using assms
  by (auto simp: eval_batch_def bind_err_def Let_def
      split: sum.splits option.splits prod.splits if_splits dest: add_metrics_keys)

lemma eval_batches_keys:
  "eval_batches a m md ex op lab st bs = Inr st' \<Longrightarrow>
   map fst (score_dict st') = map fst (score_dict st)"
proof (induction bs arbitrary: st)
  case Nil
  then show ?case by simp
next
  case (Cons b bs)
  then show ?case by (auto split: sum.splits dest!: eval_batch_keys)
qed

lemma scoring_pass_keys:
  assumes "scoring_pass env a m md ex op lab dl = Inr st"
  shows "map fst (score_dict st) = map fst md"
  using assms eval_batches_keys [of a m md ex op lab "init_state md" dl st]
  by (simp add: scoring_pass_def init_state_def map_fst_zero del: map_map split: if_splits)

lemma evaluate_metrics_Inr:
  assumes "evaluate_metrics env name m dl md ex op a lab = (m', Inr (sd, tc, preds))"
  shows "map fst sd = map fst md \<and> (preds \<noteq> None) = op \<and> (sd \<noteq> [] \<longrightarrow> tc \<noteq> 0)
         \<and> m' = m\<lparr>training := True\<rparr>"
  using assms
  by (auto simp: evaluate_metrics_def Let_def log_rates_def model_eval_def model_train_def
      split: sum.splits prod.splits if_splits dest!: scoring_pass_keys reduce_scores_keys)

lemma evaluate_metrics_world:
  assumes "evaluate_metrics env name m dl md ex op a lab = (m', Inr r)"
  shows "\<not> (op \<and> data_parallel_world_size env \<noteq> 1)"
  using assms
  by (auto simp: evaluate_metrics_def Let_def scoring_pass_def split: sum.splits if_splits)

lemma evaluate_metrics_empty:
  assumes "metric_dict \<noteq> []" and "peer_vectors env name = []"
    and "\<not> (op \<and> data_parallel_world_size env \<noteq> 1)"
  shows "evaluate_metrics env name m [] metric_dict ex op a lab
           = (m\<lparr>training := True\<rparr>, Inl ZeroDivisionError)"
proof -
  have sp: "scoring_pass env a (model_eval m) metric_dict ex op lab [] = Inr (init_state metric_dict)"
    using assms(3) by (auto simp: scoring_pass_def)
  have ne: "score_dict (init_state metric_dict) \<noteq> []"
    using assms(1) by (simp add: init_state_def)
  have "list_all (\<lambda>(key, v). to_float32 v = v) (score_dict (init_state metric_dict))"
    by (simp add: init_state_def list_all_iff to_float32_zero split_beta)
  then have "reduce_scores [] (init_state metric_dict)
               = Inr (score_dict (init_state metric_dict), real (total_seen (init_state metric_dict)))"
    by (rule reduce_scores_exact) (simp add: init_state_def to_float32_zero)
  then show ?thesis
    using sp assms(2) ne
    by (simp add: evaluate_metrics_def Let_def log_rates_def init_state_def model_eval_def
        model_train_def)
qed

subsection \<open>The loop over the dataloaders\<close>

lemma add_scores_keys:
  "add_scores ks sd single = Inr sd' \<Longrightarrow> map fst sd' = map fst sd"
proof (induction ks arbitrary: sd)
  case Nil
  then show ?case by simp
next
  case (Cons k ks)
  from Cons.prems obtain old v where
    g: "dict_get sd k = Inr old" and r: "add_scores ks (dict_set sd k (old + v)) single = Inr sd'"
    by (auto split: sum.splits)
  from Cons.IH [OF r] dict_set_keys [OF dict_get_in_keys [OF g]] show ?case by simp
qed

lemma add_scores_ok:
  "distinct ks \<Longrightarrow> set ks \<subseteq> fst ` set sd \<Longrightarrow> set ks \<subseteq> fst ` set single \<Longrightarrow>
   \<exists>sd'. add_scores ks sd single = Inr sd' \<and> map fst sd' = map fst sd \<and>
     (\<forall>k. map_of sd' k = (if k \<in> set ks then Some (the (map_of sd k) + the (map_of single k))
                          else map_of sd k))"
proof (induction ks arbitrary: sd)
  case Nil
  then show ?case by simp
next
  case (Cons k ks)
  from Cons.prems obtain old where old: "map_of sd k = Some old"
    using key_has_value [of k sd] by auto
  from Cons.prems obtain v where v: "map_of single k = Some v"
    using key_has_value [of k single] by auto
  have kin: "k \<in> fst ` set sd" using Cons.prems by simp
  let ?sd = "dict_set sd k (old + v)"
  have keys: "map fst ?sd = map fst sd" using dict_set_keys [OF kin] .
  have sub: "set ks \<subseteq> fst ` set ?sd"
    using Cons.prems keys by (metis list.set_map set_subset_Cons subset_trans)
  from Cons.IH [OF _ sub] Cons.prems obtain sd' where
    r: "add_scores ks ?sd single = Inr sd'" and k': "map fst sd' = map fst ?sd"
    and m: "\<forall>k'. map_of sd' k' =
              (if k' \<in> set ks then Some (the (map_of ?sd k') + the (map_of single k'))
               else map_of ?sd k')"
    by auto
  have "add_scores (k # ks) sd single = Inr sd'"
    using old v r by (simp add: dict_get_def)
  moreover have "map fst sd' = map fst sd" using k' keys by simp
  moreover have "\<forall>k'. map_of sd' k' =
            (if k' \<in> set (k # ks) then Some (the (map_of sd k') + the (map_of single k'))
             else map_of sd k')"
    using m Cons.prems(1) old v by (auto simp: dict_set_map_of)
  ultimately show ?case by blast
qed

lemma metrics_loop_keys:
  "metrics_loop env bo md op a m acc dls = (m', Inr acc') \<Longrightarrow>
   map fst (acc_scores acc') = map fst (acc_scores acc)"
proof (induction dls arbitrary: m acc)
  case Nil
  then show ?case by simp
next
  case (Cons nd dls)
  obtain n dl where nd: "nd = (n, dl)" by (cases nd)
  from Cons.prems nd obtain m1 single tc preds sd where
    a: "add_scores (map fst (acc_scores acc)) (acc_scores acc) single = Inr sd"
    and r: "metrics_loop env bo md op a m1
              \<lparr>acc_scores = sd, acc_total = acc_total acc + tc,
               named_predictions = (case preds of None \<Rightarrow> named_predictions acc
                                    | Some p \<Rightarrow> named_predictions acc @ [(n, p)]),
               names = (case preds of None \<Rightarrow> names acc | Some p \<Rightarrow> names acc @ ''_'' @ n)\<rparr>
              dls = (m', Inr acc')"
    by (auto split: prod.splits sum.splits)
  from Cons.IH [OF r] add_scores_keys [OF a] show ?case by simp
qed

lemma metrics_loop_names:
  "op \<Longrightarrow> metrics_loop env bo md op a m acc dls = (m', Inr acc') \<Longrightarrow>
   names acc' = names acc @ concat (map (\<lambda>(n, dl). ''_'' @ n) dls)
   \<and> map fst (named_predictions acc') = map fst (named_predictions acc) @ map fst dls"
proof (induction dls arbitrary: m acc)
  case Nil
  then show ?case by simp
next
  case (Cons nd dls)
  obtain n dl where nd: "nd = (n, dl)" by (cases nd)
  from Cons.prems(2) nd obtain m1 single tc preds sd where
    e: "evaluate_metrics env n m (bo dl) md (examples (dataset dl)) op a (labeled (dataset dl))
          = (m1, Inr (single, tc, preds))"
    and r: "metrics_loop env bo md op a m1
              \<lparr>acc_scores = sd, acc_total = acc_total acc + tc,
               named_predictions = (case preds of None \<Rightarrow> named_predictions acc
                                    | Some p \<Rightarrow> named_predictions acc @ [(n, p)]),
               names = (case preds of None \<Rightarrow> names acc | Some p \<Rightarrow> names acc @ ''_'' @ n)\<rparr>
              dls = (m', Inr acc')"
    by (auto split: prod.splits sum.splits)
  from evaluate_metrics_Inr [OF e] Cons.prems(1) obtain p where p: "preds = Some p" by auto
  from Cons.IH [OF Cons.prems(1) r] p nd show ?case by simp
qed

lemma metrics_loop_empty_loaders:
  assumes "metric_dict \<noteq> []" and "\<not> (op \<and> data_parallel_world_size env \<noteq> 1)"
    and "list_all (\<lambda>(n, dl). batches_of dl = [] \<and> peer_vectors env n = []) dls"
    and "dls \<noteq> []"
  shows "snd (metrics_loop env batches_of metric_dict op a m acc dls) = Inl ZeroDivisionError"
proof (cases dls)
  case Nil
  then show ?thesis using assms(4) by simp
next
  case (Cons nd rest)
  obtain n dl where nd: "nd = (n, dl)" by (cases nd)
  have "batches_of dl = []" "peer_vectors env n = []" using assms(3) Cons nd by simp_all
  then show ?thesis
    using Cons nd
      evaluate_metrics_empty [OF assms(1) _ assms(2), of n m "examples (dataset dl)" a
        "labeled (dataset dl)"]
    by simp
qed

lemma evaluate_metrics_total_nonneg:
  assumes e: "evaluate_metrics env name m dl md ex op a lab = (m', Inr (sd, tc, preds))"
    and peers: "list_all (\<lambda>p. 0 \<le> last p) (peer_vectors env name)"
  shows "0 \<le> tc"
proof -
  from e obtain st where "reduce_scores (peer_vectors env name) st = Inr (sd, tc)"
    by (auto simp: evaluate_metrics_def Let_def split: sum.splits prod.splits)
  then have "tc = foldl (\<lambda>acc t. to_float32 (acc + t)) (to_float32 (real (total_seen st)))
                    (map last (peer_vectors env name))"
    by (rule reduce_scores_total)
  moreover have "0 \<le> to_float32 (real (total_seen st))"
    by (rule to_float32_nonneg) simp
  moreover have "list_all (\<lambda>t. 0 \<le> t) (map last (peer_vectors env name))"
    using peers by (simp add: list_all_iff)
  ultimately show ?thesis by (simp add: round_sum_nonneg)
qed

lemma metrics_loop_total_nonneg:
  "\<forall>n. list_all (\<lambda>p. 0 \<le> last p) (peer_vectors env n) \<Longrightarrow>
   metrics_loop env bo md op a m acc dls = (m', Inr acc') \<Longrightarrow>
   0 \<le> acc_total acc \<Longrightarrow> 0 \<le> acc_total acc'"
proof (induction dls arbitrary: m acc)
  case Nil
  then show ?case by simp
next
  case (Cons nd dls)
  obtain n dl where nd: "nd = (n, dl)" by (cases nd)
  from Cons.prems(2) nd obtain m1 single tc preds sd where
    e: "evaluate_metrics env n m (bo dl) md (examples (dataset dl)) op a (labeled (dataset dl))
          = (m1, Inr (single, tc, preds))"
    and r: "metrics_loop env bo md op a m1
              \<lparr>acc_scores = sd, acc_total = acc_total acc + tc,
               named_predictions = (case preds of None \<Rightarrow> named_predictions acc
                                    | Some p \<Rightarrow> named_predictions acc @ [(n, p)]),
               names = (case preds of None \<Rightarrow> names acc | Some p \<Rightarrow> names acc @ ''_'' @ n)\<rparr>
              dls = (m', Inr acc')"
    by (auto split: prod.splits sum.splits)
  have "0 \<le> tc" using evaluate_metrics_total_nonneg [OF e] Cons.prems(1) by blast
  with Cons.prems(3) have "0 \<le> acc_total acc + tc" by simp
  with Cons.IH [OF Cons.prems(1) r] show ?case by simp
qed

lemma os_path_join_plain:
  "dir \<noteq> [] \<Longrightarrow> last dir \<noteq> CHR ''/'' \<Longrightarrow>
   os_path_join dir (''predictions'' @ rest) = dir @ ''/predictions'' @ rest"
  by (simp add: os_path_join_def)

lemma fmt4_rate: "fmt4 ((80 + 150) / (100 + 200)) = 0.7667"
proof -
  have "\<lfloor>23000 / 3 :: real\<rfloor> = 7666" by (simp add: floor_eq_iff)
  then have "round_half_even ((80 + 150) / (100 + 200) * 10000) = 7667"
    by (simp add: round_half_even_def Let_def)
  then show ?thesis by (simp add: fmt4_def)
qed

subsection \<open>Runs on the sample inputs\<close>

lemmas sample_defs = args0_def env1_def env2_def acc_dict_def failing_metric_def tokens23_def
  pair_batch_def pair_state_def sample_loader_def no_batches_def one_batch_def echo_model_def
  single_batch_def env3_def big_state_def row3_def

lemmas run_defs = evaluate_metrics_def scoring_pass_def eval_batch_def bind_err_def batch_inputs_def
  input_keys_def forward_def full_forward_def chunked_forward_def run_model_def model_eval_def
  model_train_def argmax_last_def argmax_row_def accuracy_metric_def example_batch_of_def
  init_state_def reduce_scores_def all_reduce_def unpack_def log_rates_def dict_get_def
  segment_length_def Let_def build_data_loader_def init_acc_def metrics_func_def
  to_float32_zero to_float32_one to_float32_numeral

lemma pass_pair_alone:
  "scoring_pass env1 args0 (model_eval echo_model) acc_dict None False True [pair_batch]
     = Inr pair_state"
  by (simp add: sample_defs run_defs)


lemma eval_pair:
  "evaluate_metrics env1 ''d1'' echo_model [pair_batch] acc_dict None False args0 True
     = (echo_model, Inr ([(''accuracy'', 100)], 2, None))"
  by (simp add: sample_defs run_defs)



lemma eval_pair_failing:
  "evaluate_metrics env1 ''d1'' echo_model [pair_batch] [(''accuracy'', failing_metric)] None False
     args0 True
     = (echo_model\<lparr>training := False\<rparr>, Inl (Raised ''metric failed''))"
  by (simp add: sample_defs run_defs)

lemma eval_peers1:
  "evaluate_metrics env2 ''d1'' echo_model (no_batches (sample_loader ''d1'')) acc_dict
     (examples (dataset (sample_loader ''d1''))) False args0 (labeled (dataset (sample_loader ''d1'')))
     = (echo_model, Inr ([(''accuracy'', 80)], 100, None))"
  by (simp add: sample_defs run_defs)

lemma eval_peers2:
  "evaluate_metrics env2 ''d2'' echo_model (no_batches (sample_loader ''d2'')) acc_dict
     (examples (dataset (sample_loader ''d2''))) False args0 (labeled (dataset (sample_loader ''d2'')))
     = (echo_model, Inr ([(''accuracy'', 150)], 200, None))"
  by (simp add: sample_defs run_defs)

lemma save_pair:
  "save (metrics_func env1 one_batch acc_dict args0 False [(''d1'', sample_loader ''d1'')]
           echo_model 0 True False)
     = Saved ''ckpt/predictions_d1.pt''
         [(''d1'', [softmax_row [5, 6, 7], softmax_row [9, 1, 2]], [2, 1], [0, 1])]"
  by (simp add: sample_defs run_defs os_path_join_def)

section \<open>The claims\<close>

subsection \<open>C1: the mode flag around the scoring pass\<close>

text \<open>
  C1, as amended. \<^verbatim>\<open>evaluate_metrics\<close> puts the model in evaluation mode at entry: the
  scoring pass runs on the model with \<open>training = False\<close>, whatever the mode was before the
  call. Training mode is set again exactly when the loop over the batches has completed
  without raising; in particular the model is in training mode whenever the call returns a
  value. The source has no \<^verbatim>\<open>try/finally\<close> around the pass, so an exception raised in
  it (a metric function that raises, the single-worker assertion) leaves the model in
  evaluation mode. The callable itself is not changed.
\<close>

theorem mode_after_scoring:
  "training (fst (evaluate_metrics env name m dl metric_dict ex op a lab))
     = (\<exists>st. scoring_pass env a (m\<lparr>training := False\<rparr>) metric_dict ex op lab dl = Inr st)
   \<and> call (fst (evaluate_metrics env name m dl metric_dict ex op a lab)) = call m
   \<and> (\<forall>r. snd (evaluate_metrics env name m dl metric_dict ex op a lab) = Inr r
        \<longrightarrow> training (fst (evaluate_metrics env name m dl metric_dict ex op a lab)))
   \<and> evaluate_metrics env name (m\<lparr>training := b\<rparr>) dl metric_dict ex op a lab
       = evaluate_metrics env name m dl metric_dict ex op a lab"
proof -
  let ?pass = "scoring_pass env a (m\<lparr>training := False\<rparr>) metric_dict ex op lab dl"
  show ?thesis
  proof (cases ?pass)
    case (Inl e)
    then show ?thesis
      by (simp add: evaluate_metrics_def Let_def model_eval_def model_train_def)
  next
    case (Inr st)
    then show ?thesis
      by (simp add: evaluate_metrics_def Let_def model_eval_def model_train_def
          split: sum.splits prod.splits)
  qed
qed

text \<open>A pass over one batch of two examples that completes: the model ends in training mode.\<close>

theorem mode_after_scoring_witness:
  "snd (evaluate_metrics env1 ''d1'' echo_model [pair_batch] acc_dict None False args0 True)
     = Inr ([(''accuracy'', 100)], 2, None)
   \<and> training (fst (evaluate_metrics env1 ''d1'' echo_model [pair_batch] acc_dict None False args0
                      True))"
proof -
  have r: "snd (evaluate_metrics env1 ''d1'' echo_model [pair_batch] acc_dict None False args0 True)
             = Inr ([(''accuracy'', 100)], 2, None)"
    by (simp add: eval_pair)
  from mode_after_scoring [of env1 "''d1''" echo_model "[pair_batch]" acc_dict None False args0 True]
    r
  have "training (fst (evaluate_metrics env1 ''d1'' echo_model [pair_batch] acc_dict None False
                         args0 True))"
    by blast
  with r show ?thesis by blast
qed

text \<open>
  The claim as stated fails: with a metric function that raises on the first batch, the
  call raises and the model, in training mode before the call, is left in evaluation mode.
\<close>

theorem mode_left_eval_counterexample:
  "training echo_model
   \<and> snd (evaluate_metrics env1 ''d1'' echo_model [pair_batch] [(''accuracy'', failing_metric)]
            None False args0 True) = Inl (Raised ''metric failed'')
   \<and> training (fst (evaluate_metrics env1 ''d1'' echo_model [pair_batch]
                      [(''accuracy'', failing_metric)] None False args0 True)) = False"
  by (simp add: eval_pair_failing) (simp add: echo_model_def)

subsection \<open>C2: chunks of a sequence of length 23\<close>



subsection \<open>C3: short sequences, chunked and not chunked\<close>

text \<open>
  C3, as amended. When every input tensor has size at most \<open>segment_length\<close> along
  dimension 1 and the first has size at least 1, the chunked path (one chunk, one model call,
  a concatenation of one tensor) and the direct path give the same logits, for every model;
  the direct path is the one \<^verbatim>\<open>evaluate_metrics\<close> takes for such a batch.
\<close>

theorem chunked_eq_full:
  assumes inp: "inputs = t0 # rest"
    and sz: "list_all (\<lambda>t. wf_tensor t \<and> size1 t \<le> segment_length) inputs"
    and pos: "0 < size1 t0"
  shows "chunked_forward m (size1 t0) inputs = full_forward m inputs
       \<and> forward m inputs = full_forward m inputs"
proof -
  have le: "size1 t0 \<le> segment_length" using inp sz by simp
  have "\<And>t. t \<in> set inputs \<Longrightarrow> slice1 0 segment_length t = t"
    using sz by (simp add: list_all_iff slice1_whole)
  then have "input_batch 0 inputs = inputs"
    by (simp add: input_batch_def map_idI)
  then have "chunked_forward m (size1 t0) inputs = full_forward m inputs"
    using num_chunks_small [OF pos le]
    by (simp add: chunked_forward_def full_forward_def logit_list_def)
  moreover have "forward m inputs = full_forward m inputs"
    using inp le by (simp add: forward_def)
  ultimately show ?thesis by blast
qed

theorem chunked_eq_full_witness:
  "list_all (\<lambda>t. wf_tensor t \<and> size1 t \<le> segment_length) [row3, row3, row3] \<and> 0 < size1 row3
   \<and> chunked_forward echo_model (size1 row3) [row3, row3, row3]
       = full_forward echo_model [row3, row3, row3]"
proof -
  have a: "list_all (\<lambda>t. wf_tensor t \<and> size1 t \<le> segment_length) [row3, row3, row3]"
    by (simp add: wf_tensor_def row3_def segment_length_def)
  have b: "0 < size1 row3" by (simp add: row3_def)
  from chunked_eq_full [OF refl a b]
  have "chunked_forward echo_model (size1 row3) [row3, row3, row3]
          = full_forward echo_model [row3, row3, row3]"
    by blast
  with a b show ?thesis by blast
qed

text \<open>
  The claim as stated fails at size 0: \<^verbatim>\<open>(0 - 1) // 10 + 1\<close> is 0, so the chunked path
  calls the model for no chunk and concatenates an empty list, which raises, while the
  direct path returns the logits of the model.
\<close>

theorem chunked_empty_seq_counterexample:
  "size1 empty_seq \<le> segment_length
   \<and> chunked_forward echo_model (size1 empty_seq) [empty_seq, empty_seq, empty_seq]
       = Inl RuntimeError
   \<and> full_forward echo_model [empty_seq, empty_seq, empty_seq] = Inr \<lparr>size1 = 0, rows = [[]]\<rparr>"
  by (simp add: empty_seq_def chunked_forward_def full_forward_def logit_list_def num_chunks_def
      segment_length_def run_model_def echo_model_def)

subsection \<open>C4: the loss mask\<close>

text \<open>
  C4. For logits and a mask of the same sizes, the loss-mask step returns the tensor of the
  values \<open>l * m - 10000 * (1 - m)\<close>, position by position; when moreover both tensors are
  well formed and the mask is 1 at every position, the step returns the logits unchanged.
\<close>

theorem loss_mask_affine_and_ones:
  assumes "size0 lmask = size0 logits" and "size1 lmask = size1 logits"
  shows "apply_loss_mask logits lmask =
           Inr \<lparr>size1 = size1 logits,
                rows = map2 (map2 (\<lambda>l m. l * m - 10000 * (1 - m))) (rows logits) (rows lmask)\<rparr>
       \<and> (wf_tensor logits \<and> wf_tensor lmask \<and> list_all (list_all (\<lambda>x. x = 1)) (rows lmask)
            \<longrightarrow> apply_loss_mask logits lmask = Inr logits)"
proof -
  have eqf: "mask_logit = (\<lambda>l m. l * m - 10000 * (1 - m))"
    by (intro ext) (simp add: mask_logit_def)
  have a: "apply_loss_mask logits lmask =
     Inr \<lparr>size1 = size1 logits, rows = map2 (map2 mask_logit) (rows logits) (rows lmask)\<rparr>"
    using assms by (rule apply_loss_mask_same_shape)
  have b: "apply_loss_mask logits lmask = Inr logits"
    if "wf_tensor logits" "wf_tensor lmask" "list_all (list_all (\<lambda>x. x = 1)) (rows lmask)"
  proof -
    have "map2 (map2 mask_logit) (rows logits) (rows lmask) = rows logits"
      using that assms
      by (intro map2_rows_ones [where n = "size1 logits"]) (simp_all add: wf_tensor_def size0_def)
    then show ?thesis using a by (cases logits) simp
  qed
  show ?thesis using a b unfolding eqf by blast
qed

theorem loss_mask_affine_and_ones_witness:
  "size0 ones22 = size0 logits22 \<and> size1 ones22 = size1 logits22
   \<and> wf_tensor logits22 \<and> wf_tensor ones22 \<and> list_all (list_all (\<lambda>x. x = 1)) (rows ones22)
   \<and> apply_loss_mask logits22 ones22 = Inr logits22"
proof -
  have a: "size0 ones22 = size0 logits22" and b: "size1 ones22 = size1 logits22"
    by (simp_all add: ones22_def logits22_def size0_def)
  have c: "wf_tensor logits22 \<and> wf_tensor ones22 \<and> list_all (list_all (\<lambda>x. x = 1)) (rows ones22)"
    by (simp add: ones22_def logits22_def wf_tensor_def)
  from loss_mask_affine_and_ones [OF a b] c have "apply_loss_mask logits22 ones22 = Inr logits22"
    by blast
  with a b c show ?thesis by blast
qed

subsection \<open>C5: the example count\<close>




subsection \<open>C6: reduction in a group of size 1\<close>

text \<open>
  C6, as amended. With no peer, packing the sums in the order of the sorted keys followed
  by the total, reducing, and writing the vector back returns every metric sum and the total
  rounded to single precision, under the same keys in the same order. The reduction is the
  identity on every accumulator whose sums single precision stores exactly and whose total
  is at most \<open>2 ^ 24\<close>. A call of \<^verbatim>\<open>evaluate_metrics\<close> in a group of size 1 whose
  pass completes returns the rounded sums and the rounded count, provided the log line can
  be formatted (no metric key, or a count that is not 0).
\<close>

theorem single_worker_reduction_rounds:
  assumes wf: "wf_dict (score_dict st)"
  shows "reduce_scores [] st
           = Inr (map (\<lambda>(key, v). (key, to_float32 v)) (score_dict st),
                  to_float32 (real (total_seen st)))
   \<and> (list_all (\<lambda>(key, v). to_float32 v = v) (score_dict st) \<and> total_seen st \<le> 2 ^ 24
        \<longrightarrow> reduce_scores [] st = Inr (score_dict st, real (total_seen st)))
   \<and> (peer_vectors env name = []
        \<and> scoring_pass env a (model_eval m) metric_dict ex op lab dataloader = Inr st
        \<and> (metric_dict = [] \<or> total_seen st \<noteq> 0)
      \<longrightarrow> snd (evaluate_metrics env name m dataloader metric_dict ex op a lab)
            = Inr (map (\<lambda>(key, v). (key, to_float32 v)) (score_dict st),
                   to_float32 (real (total_seen st)),
                   if op then Some (softmaxes st, labels st, ids st) else None))"
proof -
  let ?sd = "map (\<lambda>(key, v). (key, to_float32 v)) (score_dict st)"
  let ?tc = "to_float32 (real (total_seen st))"
  have red: "reduce_scores [] st = Inr (?sd, ?tc)"
    using wf unfolding wf_dict_def by (rule reduce_scores_rounds)
  have same: "reduce_scores [] st = Inr (score_dict st, real (total_seen st))"
    if "list_all (\<lambda>(key, v). to_float32 v = v) (score_dict st)" and "total_seen st \<le> 2 ^ 24"
    using that(1) to_float32_of_nat [OF that(2)] by (rule reduce_scores_exact)
  have ev: "snd (evaluate_metrics env name m dataloader metric_dict ex op a lab)
            = Inr (?sd, ?tc, if op then Some (softmaxes st, labels st, ids st) else None)"
    if peers: "peer_vectors env name = []"
      and pass: "scoring_pass env a (model_eval m) metric_dict ex op lab dataloader = Inr st"
      and fmt: "metric_dict = [] \<or> total_seen st \<noteq> 0"
  proof -
    have "map fst (score_dict st) = map fst metric_dict"
      using pass by (rule scoring_pass_keys)
    moreover have "?tc \<noteq> 0" if "total_seen st \<noteq> 0"
    proof -
      have "1 \<le> real (total_seen st)" using that by simp
      then have "0 < ?tc" by (rule to_float32_pos)
      then show ?thesis by simp
    qed
    ultimately have "?sd = [] \<or> ?tc \<noteq> 0"
      using fmt by auto
    then have "log_rates ?sd ?tc = Inr ()"
      by (auto simp: log_rates_def)
    then show ?thesis
      using pass peers red by (simp add: evaluate_metrics_def Let_def)
  qed
  from red same ev show ?thesis by blast
qed

text \<open>The accumulator after one batch: a sum of 100 over 2 examples comes back unchanged.\<close>

theorem single_worker_reduction_rounds_witness:
  "wf_dict (score_dict pair_state)
   \<and> list_all (\<lambda>(key, v). to_float32 v = v) (score_dict pair_state)
   \<and> total_seen pair_state \<le> 2 ^ 24
   \<and> reduce_scores [] pair_state = Inr (score_dict pair_state, real (total_seen pair_state))"
proof -
  have a: "wf_dict (score_dict pair_state)" by (simp add: wf_dict_def pair_state_def)
  have b: "list_all (\<lambda>(key, v). to_float32 v = v) (score_dict pair_state)"
    by (simp add: pair_state_def to_float32_numeral)
  have c: "total_seen pair_state \<le> 2 ^ 24" by (simp add: pair_state_def)
  from single_worker_reduction_rounds [OF a] b c
  have "reduce_scores [] pair_state = Inr (score_dict pair_state, real (total_seen pair_state))"
    by blast
  with a b c show ?thesis by blast
qed

text \<open>
  The claim as stated fails: the accuracy sum 67108900 (671089 correct answers) is not a
  single-precision number, and the reduction in a group of size 1 returns 67108896.
\<close>

theorem single_worker_reduction_counterexample:
  "score_dict big_state = [(''accuracy'', 67108900)]
   \<and> total_seen big_state = 700000
   \<and> reduce_scores [] big_state = Inr ([(''accuracy'', 67108896)], 700000)"
proof -
  have "distinct (map fst (score_dict big_state))" by (simp add: big_state_def)
  then have "reduce_scores [] big_state
               = Inr (map (\<lambda>(key, v). (key, to_float32 v)) (score_dict big_state),
                      to_float32 (real (total_seen big_state)))"
    by (rule reduce_scores_rounds)
  then show ?thesis
    by (simp add: big_state_def to_float32_67108900 to_float32_numeral)
qed

subsection \<open>C7: the combined rate of two datasets\<close>

text \<open>
  C7. Let \<^verbatim>\<open>metrics_func\<close> run over two dataloaders whose scoring passes return the
  totals 100 and 200 and, for one metric key, the sums 80 and 150 (the keys of the metric
  dictionary being distinct, and the load directory being set if predictions are written).
  Then the call returns a rate mapping whose value for that key is \<open>(80 + 150) / (100 + 200)\<close>,
  which the four-decimal format of the log line renders as 0.7667.
\<close>

theorem combined_rate_two_datasets:
  assumes wf: "wf_dict metric_dict"
    and key: "key \<in> fst ` set metric_dict"
    and e1: "evaluate_metrics env n1 m (batches_of dl1) metric_dict (examples (dataset dl1)) op a
               (labeled (dataset dl1)) = (m1, Inr (sd1, 100, p1))"
    and e2: "evaluate_metrics env n2 m1 (batches_of dl2) metric_dict (examples (dataset dl2)) op a
               (labeled (dataset dl2)) = (m2, Inr (sd2, 200, p2))"
    and s1: "map_of sd1 key = Some 80"
    and s2: "map_of sd2 key = Some 150"
    and dir: "op \<and> rank env = 0 \<longrightarrow> load a \<noteq> None"
  shows "\<exists>rates. returned (metrics_func env batches_of metric_dict a is_test [(n1, dl1), (n2, dl2)]
                             m epoch op sw) = Inr rates
              \<and> map_of rates key = Some ((80 + 150) / (100 + 200))
              \<and> fmt4 ((80 + 150) / (100 + 200)) = 0.7667"
proof -
  let ?ks = "map fst metric_dict"
  let ?acc0 = "init_acc metric_dict"
  have d: "distinct ?ks" using wf by (simp add: wf_dict_def)
  have k0: "map fst (acc_scores ?acc0) = ?ks" by (simp add: init_acc_def map_fst_zero del: map_map)
  have k1: "map fst sd1 = ?ks" using evaluate_metrics_Inr [OF e1] by simp
  have k2: "map fst sd2 = ?ks" using evaluate_metrics_Inr [OF e2] by simp
  have z: "map_of (acc_scores ?acc0) key = Some 0"
    using key by (simp add: init_acc_def map_of_zero)
  have sub0: "set ?ks \<subseteq> fst ` set (acc_scores ?acc0)" using k0 by (metis list.set_map subset_refl)
  have sub1: "set ?ks \<subseteq> fst ` set sd1" using k1 by (metis list.set_map subset_refl)
  have sub2: "set ?ks \<subseteq> fst ` set sd2" using k2 by (metis list.set_map subset_refl)
  from add_scores_ok [OF d sub0 sub1] obtain sdA where
    a1: "add_scores ?ks (acc_scores ?acc0) sd1 = Inr sdA" and kA: "map fst sdA = ?ks"
    and mA: "\<forall>k. map_of sdA k =
               (if k \<in> set ?ks then Some (the (map_of (acc_scores ?acc0) k) + the (map_of sd1 k))
                else map_of (acc_scores ?acc0) k)"
    using k0 by auto
  have subA: "set ?ks \<subseteq> fst ` set sdA" using kA by (metis list.set_map subset_refl)
  from add_scores_ok [OF d subA sub2] obtain sdB where
    a2: "add_scores ?ks sdA sd2 = Inr sdB" and kB: "map fst sdB = ?ks"
    and mB: "\<forall>k. map_of sdB k =
               (if k \<in> set ?ks then Some (the (map_of sdA k) + the (map_of sd2 k))
                else map_of sdA k)"
    using kA by auto
  have kin: "key \<in> set ?ks" using key by simp
  have vA: "map_of sdA key = Some 80" using mA kin z s1 by simp
  have vB: "map_of sdB key = Some (80 + 150)" using mB kin vA s2 by simp
  let ?acc1 = "\<lparr>acc_scores = sdA, acc_total = acc_total ?acc0 + 100,
                named_predictions = (case p1 of None \<Rightarrow> named_predictions ?acc0
                                     | Some p \<Rightarrow> named_predictions ?acc0 @ [(n1, p)]),
                names = (case p1 of None \<Rightarrow> names ?acc0 | Some p \<Rightarrow> names ?acc0 @ ''_'' @ n1)\<rparr>"
  let ?acc2 = "\<lparr>acc_scores = sdB, acc_total = acc_total ?acc1 + 200,
                named_predictions = (case p2 of None \<Rightarrow> named_predictions ?acc1
                                     | Some p \<Rightarrow> named_predictions ?acc1 @ [(n2, p)]),
                names = (case p2 of None \<Rightarrow> names ?acc1 | Some p \<Rightarrow> names ?acc1 @ ''_'' @ n2)\<rparr>"
  have loop: "metrics_loop env batches_of metric_dict op a m ?acc0 [(n1, dl1), (n2, dl2)]
                = (m2, Inr ?acc2)"
    using e1 e2 a1 a2 k0 kA by simp
  have tot: "acc_total ?acc2 = 100 + 200" by (simp add: init_acc_def)
  have w: "\<not> (op \<and> data_parallel_world_size env \<noteq> 1)"
    using evaluate_metrics_world [OF e1] .
  let ?rates = "map (\<lambda>(key, score). (key, score / acc_total ?acc2)) sdB"
  have "returned (metrics_func env batches_of metric_dict a is_test [(n1, dl1), (n2, dl2)]
                             m epoch op sw) = Inr ?rates"
    unfolding metrics_func_def using w loop dir tot
    by (auto simp: Let_def split: option.splits)
  moreover have "map_of ?rates key = Some ((80 + 150) / (100 + 200))"
    unfolding map_of_rates vB tot by simp
  ultimately show ?thesis using fmt4_rate by blast
qed

text \<open>
  Two dataloaders whose group reports the sums 80 and 150 over 100 and 200 examples.
\<close>

theorem combined_rate_two_datasets_witness:
  "wf_dict acc_dict \<and> ''accuracy'' \<in> fst ` set acc_dict
   \<and> evaluate_metrics env2 ''d1'' echo_model (no_batches (sample_loader ''d1'')) acc_dict
        (examples (dataset (sample_loader ''d1''))) False args0
        (labeled (dataset (sample_loader ''d1'')))
       = (echo_model, Inr ([(''accuracy'', 80)], 100, None))
   \<and> evaluate_metrics env2 ''d2'' echo_model (no_batches (sample_loader ''d2'')) acc_dict
        (examples (dataset (sample_loader ''d2''))) False args0
        (labeled (dataset (sample_loader ''d2'')))
       = (echo_model, Inr ([(''accuracy'', 150)], 200, None))
   \<and> (\<exists>rates. returned (metrics_func env2 no_batches acc_dict args0 False
                           [(''d1'', sample_loader ''d1''), (''d2'', sample_loader ''d2'')]
                           echo_model 0 False False) = Inr rates
              \<and> map_of rates ''accuracy'' = Some ((80 + 150) / (100 + 200)))"
proof -
  have a: "wf_dict acc_dict" by (simp add: wf_dict_def acc_dict_def)
  have b: "''accuracy'' \<in> fst ` set acc_dict" by (simp add: acc_dict_def)
  have s1: "map_of [(''accuracy'', 80 :: real)] ''accuracy'' = Some 80" by simp
  have s2: "map_of [(''accuracy'', 150 :: real)] ''accuracy'' = Some 150" by simp
  have d: "False \<and> rank env2 = 0 \<longrightarrow> load args0 \<noteq> None" by simp
  from combined_rate_two_datasets [OF a b eval_peers1 eval_peers2 s1 s2 d, of False 0 False]
  have "\<exists>rates. returned (metrics_func env2 no_batches acc_dict args0 False
                           [(''d1'', sample_loader ''d1''), (''d2'', sample_loader ''d2'')]
                           echo_model 0 False False) = Inr rates
              \<and> map_of rates ''accuracy'' = Some ((80 + 150) / (100 + 200))"
    by blast
  with a b eval_peers1 eval_peers2 show ?thesis by blast
qed

subsection \<open>C8: writing the predictions\<close>

text \<open>
  C8, as amended. The write of the prediction file is attempted exactly when prediction
  emission is requested, the data-parallel world size is 1, the rank of the process is 0,
  and every scoring pass and the rate computation have completed without raising (the loop
  over the dataloaders returns, and no metric is registered or the combined total is not 0).
  When it is attempted, an unset load directory is an assertion failure; otherwise the named
  predictions, one entry per dataloader in order, are written to the path that joins the
  load directory and \<^verbatim>\<open>predictions_{d1}_{d2}....pt\<close>, which is
  \<^verbatim>\<open>{load}/predictions_{d1}_{d2}....pt\<close> for a load directory that is not empty and
  does not end with a separator.
\<close>

theorem prediction_write:
  assumes loop: "metrics_loop env batches_of metric_dict op a m (init_acc metric_dict) dls = (m', r)"
  shows "(save (metrics_func env batches_of metric_dict a is_test dls m epoch op sw) \<noteq> NotAttempted)
           = (op \<and> data_parallel_world_size env = 1 \<and> rank env = 0
              \<and> (\<exists>acc. r = Inr acc \<and> (acc_scores acc = [] \<or> acc_total acc \<noteq> 0)))
       \<and> (save (metrics_func env batches_of metric_dict a is_test dls m epoch op sw) \<noteq> NotAttempted \<longrightarrow>
            (case load a of
               None \<Rightarrow>
                 save (metrics_func env batches_of metric_dict a is_test dls m epoch op sw) = LoadUnset
                 \<and> returned (metrics_func env batches_of metric_dict a is_test dls m epoch op sw)
                     = Inl AssertionError
             | Some dir \<Rightarrow>
                 (\<exists>preds.
                    save (metrics_func env batches_of metric_dict a is_test dls m epoch op sw)
                      = Saved (os_path_join dir
                                 (''predictions'' @ concat (map (\<lambda>(n, dl). ''_'' @ n) dls) @ ''.pt''))
                              preds
                    \<and> map fst preds = map fst dls)
                 \<and> (dir \<noteq> [] \<and> last dir \<noteq> CHR ''/'' \<longrightarrow>
                      os_path_join dir
                        (''predictions'' @ concat (map (\<lambda>(n, dl). ''_'' @ n) dls) @ ''.pt'')
                      = dir @ ''/predictions'' @ concat (map (\<lambda>(n, dl). ''_'' @ n) dls) @ ''.pt'')))"
    (is "?iff \<and> ?what")
proof -
  let ?res = "metrics_func env batches_of metric_dict a is_test dls m epoch op sw"
  have iff: ?iff
    unfolding metrics_func_def using loop
    by (cases r) (auto simp: Let_def split: option.splits)
  have what: ?what
  proof (intro impI)
    assume att: "save ?res \<noteq> NotAttempted"
    with iff obtain acc where op: op and ws: "data_parallel_world_size env = 1" and rk: "rank env = 0"
      and r: "r = Inr acc" and nz: "acc_scores acc = [] \<or> acc_total acc \<noteq> 0"
      by blast
    from metrics_loop_names [OF op loop [unfolded r]]
    have nm: "names acc = ''predictions'' @ concat (map (\<lambda>(n, dl). ''_'' @ n) dls)"
      and np: "map fst (named_predictions acc) = map fst dls"
      by (simp_all add: init_acc_def)
    show "case load a of
               None \<Rightarrow> save ?res = LoadUnset \<and> returned ?res = Inl AssertionError
             | Some dir \<Rightarrow>
                 (\<exists>preds.
                    save ?res
                      = Saved (os_path_join dir
                                 (''predictions'' @ concat (map (\<lambda>(n, dl). ''_'' @ n) dls) @ ''.pt''))
                              preds
                    \<and> map fst preds = map fst dls)
                 \<and> (dir \<noteq> [] \<and> last dir \<noteq> CHR ''/'' \<longrightarrow>
                      os_path_join dir
                        (''predictions'' @ concat (map (\<lambda>(n, dl). ''_'' @ n) dls) @ ''.pt'')
                      = dir @ ''/predictions'' @ concat (map (\<lambda>(n, dl). ''_'' @ n) dls) @ ''.pt'')"
    proof (cases "load a")
      case None
      then show ?thesis
        unfolding metrics_func_def using loop r op ws rk nz by (auto simp: Let_def)
    next
      case (Some dir)
      have "save ?res = Saved (os_path_join dir (names acc @ ''.pt'')) (named_predictions acc)"
        unfolding metrics_func_def using loop r op ws rk nz Some by (auto simp: Let_def)
      then show ?thesis using Some nm np os_path_join_plain by auto
    qed
  qed
  from iff what show ?thesis by blast
qed

text \<open>
  One process, rank 0, emission requested, one dataloader with one batch: the file is
  written under the load directory.
\<close>

theorem prediction_write_witness:
  "save (metrics_func env1 one_batch acc_dict args0 False [(''d1'', sample_loader ''d1'')]
           echo_model 0 True False) \<noteq> NotAttempted
   \<and> data_parallel_world_size env1 = 1 \<and> rank env1 = 0
   \<and> (\<exists>acc. snd (metrics_loop env1 one_batch acc_dict True args0 echo_model (init_acc acc_dict)
                     [(''d1'', sample_loader ''d1'')]) = Inr acc)
   \<and> (\<exists>preds. save (metrics_func env1 one_batch acc_dict args0 False
                        [(''d1'', sample_loader ''d1'')] echo_model 0 True False)
                 = Saved ''ckpt/predictions_d1.pt'' preds
               \<and> map fst preds = [''d1''])"
proof -
  let ?dls = "[(''d1'', sample_loader ''d1'')]"
  let ?loop = "metrics_loop env1 one_batch acc_dict True args0 echo_model (init_acc acc_dict) ?dls"
  let ?res = "metrics_func env1 one_batch acc_dict args0 False ?dls echo_model 0 True False"
  have l: "?loop = (fst ?loop, snd ?loop)" by simp
  note th = prediction_write [OF l, where is_test = False and epoch = 0 and sw = False]
  have att: "save ?res \<noteq> NotAttempted" by (simp add: save_pair)
  from th att have cond: "data_parallel_world_size env1 = 1 \<and> rank env1 = 0
       \<and> (\<exists>acc. snd ?loop = Inr acc)"
    by blast
  have ld: "load args0 = Some ''ckpt''" by (simp add: args0_def)
  note w = th [THEN conjunct2, THEN mp, OF att, unfolded ld option.case, THEN conjunct1]
  have p: "os_path_join ''ckpt''
             (''predictions'' @ concat (map (\<lambda>(n, dl). ''_'' @ n) ?dls) @ ''.pt'')
           = ''ckpt/predictions_d1.pt''"
    by (simp add: os_path_join_def)
  have q: "map fst ?dls = [''d1'']" by simp
  from w have "\<exists>preds. save ?res = Saved ''ckpt/predictions_d1.pt'' preds \<and> map fst preds = [''d1'']"
    unfolding p q .
  with att cond show ?thesis by blast
qed

text \<open>
  The claim as stated fails: emission is requested in a group of size 1 by the process of
  rank 0, but the only dataloader yields no batch, the log line of the scoring pass divides
  by the zero total, and the call raises before it reaches the write.
\<close>

theorem prediction_write_skipped_counterexample:
  "data_parallel_world_size env1 = 1 \<and> rank env1 = 0
   \<and> save (metrics_func env1 no_batches acc_dict args0 False [(''d1'', sample_loader ''d1'')]
             echo_model 0 True False) = NotAttempted
   \<and> returned (metrics_func env1 no_batches acc_dict args0 False [(''d1'', sample_loader ''d1'')]
                 echo_model 0 True False) = Inl ZeroDivisionError"
  by (simp add: sample_defs run_defs)

subsection \<open>C9: the dataloaders built at setup\<close>

text \<open>
  C9. \<^verbatim>\<open>accuracy_func_provider\<close> builds one dataloader per data path, in order, from
  the dataset that the provider returns for the path. The paths are the test list when
  \<open>is_test\<close> holds and the validation list otherwise, and the one-element list
  \<^verbatim>\<open>['test']\<close>, respectively \<^verbatim>\<open>['dev']\<close>, when the chosen list is unset. Every
  dataloader is registered under the name of its dataset, has shuffling off, drops the last
  partial batch exactly when the data-parallel world size exceeds 1, and takes its batch
  size and worker count from the configuration. The function returned is
  \<^verbatim>\<open>metrics_func\<close> over these dataloaders.
\<close>

theorem dataloaders_setup:
  "map (\<lambda>(n, dl). dataset dl) (dataloaders env provider a is_test)
     = map provider (case (if is_test then test_data a else valid_data a) of
                       None \<Rightarrow> [if is_test then ''test'' else ''dev'']
                     | Some ps \<Rightarrow> ps)
   \<and> list_all (\<lambda>(n, dl). n = dataset_name (dataset dl) \<and> shuffle dl = False
                 \<and> drop_last dl = (1 < data_parallel_world_size env)
                 \<and> loader_batch_size dl = batch_size a \<and> loader_num_workers dl = num_workers a)
        (dataloaders env provider a is_test)
   \<and> accuracy_func_provider env batches_of provider metric_dict a is_test
       = metrics_func env batches_of metric_dict a is_test (dataloaders env provider a is_test)"
proof -
  have paths: "datapaths a is_test
                 = (case (if is_test then test_data a else valid_data a) of
                      None \<Rightarrow> [if is_test then ''test'' else ''dev'']
                    | Some ps \<Rightarrow> ps)"
    by (simp add: datapaths_def split: option.splits)
  have sets: "map (\<lambda>(n, dl). dataset dl) (dataloaders env provider a is_test)
                = map provider (datapaths a is_test)"
    by (simp add: dataloaders_def build_data_loader_def Let_def comp_def)
  have cfg: "list_all (\<lambda>(n, dl). n = dataset_name (dataset dl) \<and> shuffle dl = False
                 \<and> drop_last dl = (1 < data_parallel_world_size env)
                 \<and> loader_batch_size dl = batch_size a \<and> loader_num_workers dl = num_workers a)
        (dataloaders env provider a is_test)"
    by (simp add: dataloaders_def build_data_loader_def Let_def list_all_iff)
  have fn: "accuracy_func_provider env batches_of provider metric_dict a is_test
       = metrics_func env batches_of metric_dict a is_test (dataloaders env provider a is_test)"
    by (simp add: accuracy_func_provider_def)
  from sets cfg fn show ?thesis unfolding paths by blast
qed

subsection \<open>C10: a combined total of zero\<close>

text \<open>
  C10, as amended. Let at least one metric be registered. If every dataloader is empty in a
  group without peers, the call of \<^verbatim>\<open>metrics_func\<close> raises a division by zero instead
  of returning rates: in the log line of the first scoring pass when there is a dataloader,
  in the rate computation of \<^verbatim>\<open>metrics_func\<close> when there is none. Whenever the loop
  over the dataloaders completes with a combined total of 0, the call raises, and the
  exception is the division by zero of the rate computation unless the single-worker
  assertion fails first. So a call that returns rates has a combined total that is not 0,
  and a positive one when no peer reports a negative total. With no metric registered
  nothing is divided and the empty mapping is returned.
\<close>

theorem zero_total_division:
  assumes md: "metric_dict \<noteq> []"
  shows "(list_all (\<lambda>(n, dl). batches_of dl = [] \<and> peer_vectors env n = []) dls
            \<and> \<not> (op \<and> data_parallel_world_size env \<noteq> 1)
          \<longrightarrow> returned (metrics_func env batches_of metric_dict a is_test dls m epoch op sw)
                = Inl ZeroDivisionError)
       \<and> (\<forall>m' acc. metrics_loop env batches_of metric_dict op a m (init_acc metric_dict) dls
                      = (m', Inr acc)
              \<and> acc_total acc = 0
            \<longrightarrow> (\<exists>e. returned (metrics_func env batches_of metric_dict a is_test dls m epoch op sw)
                       = Inl e)
                \<and> (\<not> (op \<and> data_parallel_world_size env \<noteq> 1)
                     \<longrightarrow> returned (metrics_func env batches_of metric_dict a is_test dls m epoch op sw)
                           = Inl ZeroDivisionError))
       \<and> (\<forall>rates. returned (metrics_func env batches_of metric_dict a is_test dls m epoch op sw)
                     = Inr rates
            \<longrightarrow> (\<exists>m' acc. metrics_loop env batches_of metric_dict op a m (init_acc metric_dict) dls
                              = (m', Inr acc) \<and> acc_total acc \<noteq> 0
                        \<and> ((\<forall>n. list_all (\<lambda>p. 0 \<le> last p) (peer_vectors env n))
                             \<longrightarrow> 0 < acc_total acc)))"
    (is "?A \<and> ?B \<and> ?C")
proof -
  let ?res = "metrics_func env batches_of metric_dict a is_test dls m epoch op sw"
  let ?loop = "metrics_loop env batches_of metric_dict op a m (init_acc metric_dict) dls"
  have nonempty: "acc_scores acc \<noteq> []" if "?loop = (m', Inr acc)" for m' acc
  proof -
    have "map fst (acc_scores acc) = map fst metric_dict"
      using metrics_loop_keys [OF that] by (simp add: init_acc_def map_fst_zero del: map_map)
    then show ?thesis using md by auto
  qed
  have B: ?B
  proof (intro allI impI)
    fix m' acc
    assume h: "?loop = (m', Inr acc) \<and> acc_total acc = 0"
    then have ne: "acc_scores acc \<noteq> []" using nonempty by blast
    show "(\<exists>e. returned ?res = Inl e)
            \<and> (\<not> (op \<and> data_parallel_world_size env \<noteq> 1) \<longrightarrow> returned ?res = Inl ZeroDivisionError)"
      unfolding metrics_func_def using h ne by (auto simp: Let_def)
  qed
  have C: ?C
  proof (intro allI impI)
    fix rates
    assume r: "returned ?res = Inr rates"
    obtain m' x where l: "?loop = (m', x)" by (cases ?loop)
    from r l obtain acc where x: "x = Inr acc"
      unfolding metrics_func_def by (cases x) (auto simp: Let_def split: if_splits)
    have nz: "acc_total acc \<noteq> 0"
      using r l x nonempty [of m' acc] unfolding metrics_func_def
      by (auto simp: Let_def split: if_splits option.splits)
    have "0 < acc_total acc" if "\<forall>n. list_all (\<lambda>p. 0 \<le> last p) (peer_vectors env n)"
    proof -
      have "0 \<le> acc_total acc"
        using metrics_loop_total_nonneg [OF that l [unfolded x]] by (simp add: init_acc_def)
      with nz show ?thesis by simp
    qed
    with l x nz
    show "\<exists>m' acc. ?loop = (m', Inr acc) \<and> acc_total acc \<noteq> 0
            \<and> ((\<forall>n. list_all (\<lambda>p. 0 \<le> last p) (peer_vectors env n)) \<longrightarrow> 0 < acc_total acc)"
      by blast
  qed
  have A: ?A
  proof (intro impI)
    assume h: "list_all (\<lambda>(n, dl). batches_of dl = [] \<and> peer_vectors env n = []) dls
            \<and> \<not> (op \<and> data_parallel_world_size env \<noteq> 1)"
    show "returned ?res = Inl ZeroDivisionError"
    proof (cases "dls = []")
      case True
      then show ?thesis unfolding metrics_func_def using h md
        by (auto simp: Let_def init_acc_def)
    next
      case False
      have "snd ?loop = Inl ZeroDivisionError"
        using metrics_loop_empty_loaders [OF md _ _ False] h by blast
      then show ?thesis unfolding metrics_func_def using h
        by (cases ?loop) (auto simp: Let_def)
    qed
  qed
  from A B C show ?thesis by blast
qed

text \<open>The accuracy metric over one dataloader that yields no batch.\<close>

theorem zero_total_division_witness:
  "acc_dict \<noteq> []
   \<and> list_all (\<lambda>(n, dl). no_batches dl = [] \<and> peer_vectors env1 n = [])
        [(''d1'', sample_loader ''d1'')]
   \<and> returned (metrics_func env1 no_batches acc_dict args0 False [(''d1'', sample_loader ''d1'')]
                 echo_model 0 False False) = Inl ZeroDivisionError"
proof -
  have a: "acc_dict \<noteq> []" by (simp add: acc_dict_def)
  have b: "list_all (\<lambda>(n, dl). no_batches dl = [] \<and> peer_vectors env1 n = [])
             [(''d1'', sample_loader ''d1'')]"
    by (simp add: no_batches_def env1_def)
  have c: "\<not> (False \<and> data_parallel_world_size env1 \<noteq> 1)" by simp
  from zero_total_division [OF a, of no_batches env1 "[(''d1'', sample_loader ''d1'')]" False args0
      False echo_model 0 False] b c
  have "returned (metrics_func env1 no_batches acc_dict args0 False [(''d1'', sample_loader ''d1'')]
                    echo_model 0 False False) = Inl ZeroDivisionError"
    by blast
  with a b show ?thesis by blast
qed

text \<open>
  The claim as stated fails when no metric is registered: over one dataloader that yields no
  batch the combined total is 0, nothing is divided, and the call returns the empty mapping.
\<close>

theorem no_metric_zero_total_counterexample:
  "snd (metrics_loop env1 no_batches ([] :: unit metric dict) False args0 echo_model (init_acc [])
          [(''d1'', sample_loader ''d1'')])
     = Inr \<lparr>acc_scores = [], acc_total = 0, named_predictions = [], names = ''predictions''\<rparr>
   \<and> returned (metrics_func env1 no_batches ([] :: unit metric dict) args0 False
                 [(''d1'', sample_loader ''d1'')] echo_model 0 False False) = Inr []"
  by (simp add: sample_defs run_defs)

end
